theory Spec2Isabelle
  imports Complex_Main
begin

section \<open>Python strings\<close>

text \<open>
  A Python \<open>str\<close> is modelled as a \<open>string\<close>, each \<open>char\<close> standing for the code
  point of the same number (the code points below 256). \<open>isspace\<close> is the whitespace test
  shared by \<open>str.isspace\<close>, \<open>str.strip\<close> and the regular expression class \<open>\s\<close>: on these
  code points it holds for 9 to 13, 28 to 32, 133 and 160.
\<close>

definition isspace :: "char \<Rightarrow> bool" where
  "isspace c = (let n = (of_char c :: nat) in
     (9 \<le> n \<and> n \<le> 13) \<or> (28 \<le> n \<and> n \<le> 32) \<or> n = 133 \<or> n = 160)"

text \<open>\<open>s.strip()\<close>: leading and trailing whitespace removed.\<close>

definition strip :: "string \<Rightarrow> string" where
  "strip s = rev (dropWhile isspace (rev (dropWhile isspace s)))"

text \<open>
  \<open>s.split(d)\<close> for a one-character separator: the text before the first separator,
  then the pieces of the text after it; the string itself when it holds no separator.
\<close>

function split :: "char \<Rightarrow> string \<Rightarrow> string list" where
  "split d s =
     (case dropWhile (\<lambda>c. c \<noteq> d) s of
        [] \<Rightarrow> [s]
      | c # rest \<Rightarrow> takeWhile (\<lambda>c. c \<noteq> d) s # split d rest)"
  by pat_completeness auto
termination
proof (relation "measure (\<lambda>(d, s). length s)")
  show "wf (measure (\<lambda>(d, s). length s))" by simp
next
  fix d :: char and s :: string and c rest
  assume "dropWhile (\<lambda>c. c \<noteq> d) s = c # rest"
  then have "length (dropWhile (\<lambda>c. c \<noteq> d) s) = Suc (length rest)" by simp
  with length_dropWhile_le[of "\<lambda>c. c \<noteq> d" s]
  show "((d, rest), (d, s)) \<in> measure (\<lambda>(d, s). length s)" by simp
qed

declare split.simps [simp del]

text \<open>\<open>d.join(xs)\<close> for a list of strings.\<close>

fun join :: "string \<Rightarrow> string list \<Rightarrow> string" where
  "join d [] = []"
| "join d [x] = x"
| "join d (x # y # ys) = x @ d @ join d (y # ys)"

text \<open>\<open>str(n)\<close> for an integer: decimal digits, a minus sign when negative.\<close>

fun nat_str :: "nat \<Rightarrow> string" where
  "nat_str n =
     (if n < 10 then [''0123456789'' ! n]
      else nat_str (n div 10) @ [''0123456789'' ! (n mod 10)])"

declare nat_str.simps [simp del]

definition int_str :: "int \<Rightarrow> string" where
  "int_str i = (if i < 0 then CHR ''-'' # nat_str (nat (- i)) else nat_str (nat i))"

text \<open>
  The interpreter's default bound on the digits of an integer that is converted from or
  to a decimal string (\<open>sys.int_info.default_max_str_digits\<close>); beyond it the conversion
  raises a \<open>ValueError\<close>.
\<close>

definition max_str_digits :: nat where
  "max_str_digits = 4300"

text \<open>
  \<open>int(s)\<close> for a string. The whitespace \<open>int\<close> ignores around the number is not that of
  \<open>isspace\<close>: the code points 28 to 31 are not part of it. A sign may come first, and the
  rest is decimal digits, single underscores allowed between two digits; the digits,
  underscores apart, are at most \<open>max_str_digits\<close>. \<open>None\<close> is the \<open>ValueError\<close>.
\<close>

definition int_space :: "char \<Rightarrow> bool" where
  "int_space c = (let n = (of_char c :: nat) in
     (9 \<le> n \<and> n \<le> 13) \<or> n = 32 \<or> n = 133 \<or> n = 160)"

definition int_strip :: "string \<Rightarrow> string" where
  "int_strip s = rev (dropWhile int_space (rev (dropWhile int_space s)))"

definition is_digit :: "char \<Rightarrow> bool" where
  "is_digit c = (c \<in> set ''0123456789'')"

fun digits_ok :: "string \<Rightarrow> bool" where
  "digits_ok [] = False"
| "digits_ok [c] = is_digit c"
| "digits_ok (c # d # s) =
     (is_digit c \<and> (if d = CHR ''_'' then digits_ok s else digits_ok (d # s)))"

definition digits_value :: "string \<Rightarrow> nat" where
  "digits_value s =
     foldl (\<lambda>a c. 10 * a + (of_char c - 48)) 0 (filter (\<lambda>c. c \<noteq> CHR ''_'') s)"

definition parse_digits :: "string \<Rightarrow> nat option" where
  "parse_digits s =
     (if digits_ok s \<and> length (filter (\<lambda>c. c \<noteq> CHR ''_'') s) \<le> max_str_digits
      then Some (digits_value s) else None)"

definition int_of_str :: "string \<Rightarrow> int option" where
  "int_of_str s =
     (case int_strip s of
        [] \<Rightarrow> None
      | c # r \<Rightarrow>
          if c = CHR ''-'' then map_option (\<lambda>n. - int n) (parse_digits r)
          else if c = CHR ''+'' then map_option int (parse_digits r)
          else map_option int (parse_digits (c # r)))"

text \<open>
  An integer inside an f-string: its decimal text, or \<open>None\<close> for the \<open>ValueError\<close> of an
  integer of more than \<open>max_str_digits\<close> digits.
\<close>

definition format_int :: "int \<Rightarrow> string option" where
  "format_int i =
     (if length (nat_str (nat \<bar>i\<bar>)) \<le> max_str_digits then Some (int_str i) else None)"

section \<open>The regular expression of the sender check\<close>

text \<open>
  The pattern \<open>[^@\s]+@[^@\s]+\.[^@\s]+\<close> is a sequence of items: a character class,
  alone or under \<open>+\<close>. The classes are a literal character and \<open>[^@\s]\<close>.
\<close>

datatype cls = Lit char | NotAtSpace

datatype item = One cls | Plus cls

fun in_cls :: "cls \<Rightarrow> char \<Rightarrow> bool" where
  "in_cls (Lit a) c = (c = a)"
| "in_cls NotAtSpace c = (c \<noteq> CHR ''@'' \<and> \<not> isspace c)"

text \<open>
  \<open>re.match(p, s)\<close> returns a match exactly when some prefix of \<open>s\<close> matches \<open>p\<close>:
  the match is anchored at the start of the string and not at its end.
\<close>

fun re_match :: "item list \<Rightarrow> string \<Rightarrow> bool" where
  "re_match [] s = True"
| "re_match (One k # p) [] = False"
| "re_match (One k # p) (c # s) = (in_cls k c \<and> re_match p s)"
| "re_match (Plus k # p) [] = False"
| "re_match (Plus k # p) (c # s) =
     (in_cls k c \<and> (re_match (Plus k # p) s \<or> re_match p s))"

definition sender_pattern :: "item list" where
  "sender_pattern =
     [Plus NotAtSpace, One (Lit CHR ''@''), Plus NotAtSpace, One (Lit CHR ''.''),
      Plus NotAtSpace]"

section \<open>Exceptions and responses\<close>

text \<open>An exception is carried as the text \<open>str(e)\<close> gives for it.\<close>

datatype exn = Raised string

fun message :: "exn \<Rightarrow> string" where
  "message (Raised m) = m"

section \<open>The settings document\<close>

text \<open>
  The values of a Firestore document's fields: null, booleans, integers, strings and
  arrays. \<open>type_name\<close> is the name of the Python type the client returns for each.
\<close>

datatype fvalue = FNull | FBool bool | FInt int | FStr string | FArr "fvalue list"

fun type_name :: "fvalue \<Rightarrow> string" where
  "type_name FNull = ''NoneType''"
| "type_name (FBool b) = ''bool''"
| "type_name (FInt i) = ''int''"
| "type_name (FStr s) = ''str''"
| "type_name (FArr xs) = ''list''"

type_synonym document = "string \<rightharpoonup> fvalue"

text \<open>
  The argument of \<open>doc_ref.set\<close>: a Python dict filled key by key, each key assigned at
  most once, kept in insertion order.
\<close>

type_synonym updates = "(string \<times> fvalue) list"

text \<open>
  The store as the handlers see it: the document \<open>settings/configuration\<close> (\<open>None\<close> when
  it does not exist), the \<open>set\<close> calls that reached it, oldest first, and for each of
  the three client calls the exception it raises, if any.
\<close>

record firestore =
  document :: "document option"
  writes :: "updates list"
  client_error :: "exn option"
  get_error :: "exn option"
  set_error :: "exn option"

text \<open>\<open>firestore.Client(database="notification-system")\<close>\<close>

definition firestore_Client :: "firestore \<Rightarrow> exn + unit" where
  "firestore_Client fs = (case client_error fs of Some e \<Rightarrow> Inl e | None \<Rightarrow> Inr ())"

text \<open>\<open>doc_ref.get()\<close>: the snapshot; \<open>None\<close> is a snapshot whose \<open>exists\<close> is false.\<close>

definition doc_get :: "firestore \<Rightarrow> exn + document option" where
  "doc_get fs = (case get_error fs of Some e \<Rightarrow> Inl e | None \<Rightarrow> Inr (document fs))"

text \<open>
  \<open>doc_ref.set(updates, merge=True)\<close>: the fields of \<open>updates\<close> replace those of the same
  name, every other field stays, and a document that did not exist is created. A call
  that raises leaves the store as it was.
\<close>

definition merge_fields :: "document option \<Rightarrow> updates \<Rightarrow> document" where
  "merge_fields d u = (case d of None \<Rightarrow> Map.empty | Some f \<Rightarrow> f) ++ map_of u"

definition doc_set_merge :: "updates \<Rightarrow> firestore \<Rightarrow> exn + firestore" where
  "doc_set_merge u fs =
     (case set_error fs of
        Some e \<Rightarrow> Inl e
      | None \<Rightarrow>
          Inr (fs\<lparr>document := Some (merge_fields (document fs) u),
                   writes := writes fs @ [u]\<rparr>))"

section \<open>Reading the settings\<close>

text \<open>
  The JSON bodies the settings handlers return: \<open>{"ok": True, "settings": {...}}\<close>
  with the sender, the password and the recipients text, \<open>{"ok": True, "message": m}\<close>
  and \<open>{"ok": False, "error": m}\<close>.
\<close>

datatype response =
    OkSettings fvalue fvalue string
  | OkMessage string
  | NotOk string

text \<open>\<open>data.get(key, default)\<close>\<close>

definition dict_get :: "document \<Rightarrow> string \<Rightarrow> fvalue \<Rightarrow> fvalue" where
  "dict_get data k dflt = (case data k of None \<Rightarrow> dflt | Some v \<Rightarrow> v)"

text \<open>
  The items of \<open>",".join(recipients_list)\<close>: the first item that is not a \<open>str\<close> raises
  a \<open>TypeError\<close> naming its position.
\<close>

fun str_items :: "nat \<Rightarrow> fvalue list \<Rightarrow> exn + string list" where
  "str_items i [] = Inr []"
| "str_items i (FStr s # vs) =
     (case str_items (Suc i) vs of Inl e \<Rightarrow> Inl e | Inr ss \<Rightarrow> Inr (s # ss))"
| "str_items i (v # vs) =
     Inl (Raised (''sequence item '' @ nat_str i @ '': expected str instance, ''
                  @ type_name v @ '' found''))"

text \<open>The body of the \<open>try\<close> of \<open>get_notification_settings\<close>; \<open>Inl\<close> is a raise.\<close>

definition try_get_settings :: "firestore \<Rightarrow> exn + response" where
  "try_get_settings fs =
     (case firestore_Client fs of
        Inl e \<Rightarrow> Inl e
      | Inr db \<Rightarrow>
          (case doc_get fs of
             Inl e \<Rightarrow> Inl e
           | Inr None \<Rightarrow> Inr (OkSettings (FStr []) (FStr []) [])
           | Inr (Some data) \<Rightarrow>
               (case dict_get data ''recipients'' (FArr []) of
                  FArr recipients_list \<Rightarrow>
                    (case str_items 0 recipients_list of
                       Inl e \<Rightarrow> Inl e
                     | Inr ss \<Rightarrow>
                         Inr (OkSettings (dict_get data ''sender'' (FStr []))
                                (dict_get data ''password'' (FStr [])) (join '','' ss)))
                | other \<Rightarrow>
                    Inr (OkSettings (dict_get data ''sender'' (FStr []))
                           (dict_get data ''password'' (FStr [])) []))))"

text \<open>
  A handler returns what it hands to the framework, \<open>Inr\<close> a response and \<open>Inl\<close> an
  exception that left the handler, and the store after it. The \<open>except Exception\<close> of
  the settings handlers turns a raise of the body into \<open>{"ok": False, "error": str(e)}\<close>.
\<close>

definition get_notification_settings :: "firestore \<Rightarrow> (exn + response) \<times> firestore" where
  "get_notification_settings fs =
     (case try_get_settings fs of
        Inl e \<Rightarrow> (Inr (NotOk (message e)), fs)
      | Inr r \<Rightarrow> (Inr r, fs))"

section \<open>Updating the settings\<close>

text \<open>
  The values of a JSON request body. A number with a fraction, an array or an object is
  carried as the text \<open>str\<close> gives for it; \<open>py_str\<close> is \<open>str(v)\<close>.
\<close>

datatype jvalue = JNull | JBool bool | JInt int | JStr string | JOther string

fun py_str :: "jvalue \<Rightarrow> string" where
  "py_str JNull = ''None''"
| "py_str (JBool b) = (if b then ''True'' else ''False'')"
| "py_str (JInt i) = int_str i"
| "py_str (JStr s) = s"
| "py_str (JOther s) = s"

type_synonym body = "string \<rightharpoonup> jvalue"

text \<open>
  Each of the three steps returns \<open>Inl\<close> the error text of its early return, or \<open>Inr\<close>
  the dict \<open>updates\<close> as it stands after the step.
\<close>

definition handle_sender :: "body \<Rightarrow> updates \<Rightarrow> string + updates" where
  "handle_sender body updates =
     (case body ''sender'' of
        None \<Rightarrow> Inr updates
      | Some JNull \<Rightarrow> Inr updates
      | Some v \<Rightarrow>
          (let val = strip (py_str v) in
           if re_match sender_pattern val
           then (if CHR '','' \<in> set val
                 then Inl ''Sender must be a single valid email address.''
                 else Inr (updates @ [(''sender'', FStr val)]))
           else Inl ''Sender must be a single valid email address.''))"

definition handle_password :: "body \<Rightarrow> updates \<Rightarrow> string + updates" where
  "handle_password body updates =
     (case body ''password'' of
        None \<Rightarrow> Inr updates
      | Some JNull \<Rightarrow> Inr updates
      | Some v \<Rightarrow>
          (let val = strip (py_str v) in
           if list_ex isspace val then Inl ''Password must not contain whitespaces.''
           else if val \<noteq> [] then Inr (updates @ [(''password'', FStr val)])
           else Inr updates))"

definition handle_recipients :: "body \<Rightarrow> updates \<Rightarrow> string + updates" where
  "handle_recipients body updates =
     (case body ''recipients'' of
        None \<Rightarrow> Inr updates
      | Some JNull \<Rightarrow> Inr updates
      | Some v \<Rightarrow>
          (let val = strip (py_str v) in
           if CHR '' '' \<in> set val
           then Inl ''Recipients must be comma-separated with NO spaces.''
           else
             (let email_list =
                    map strip (filter (\<lambda>e. strip e \<noteq> []) (split CHR '','' val))
              in case find (\<lambda>email. CHR ''@'' \<notin> set email) email_list of
                   Some email \<Rightarrow> Inl (''Invalid email in recipients: '' @ email)
                 | None \<Rightarrow> Inr (updates @ [(''recipients'', FArr (map FStr email_list))]))))"

text \<open>Steps 1 to 3 in their order, starting from the empty dict.\<close>

definition validate :: "body \<Rightarrow> string + updates" where
  "validate body =
     (case handle_sender body [] of
        Inl err \<Rightarrow> Inl err
      | Inr u1 \<Rightarrow>
          (case handle_password body u1 of
             Inl err \<Rightarrow> Inl err
           | Inr u2 \<Rightarrow> handle_recipients body u2))"

text \<open>
  The body of the \<open>try\<close> of \<open>update_notification_settings\<close>. The request is the outcome
  of \<open>await request.json()\<close>: an exception, or the JSON object of the body.
\<close>

definition try_update_settings ::
  "firestore \<Rightarrow> exn + body \<Rightarrow> (exn + response) \<times> firestore" where
  "try_update_settings fs request =
     (case request of
        Inl e \<Rightarrow> (Inl e, fs)
      | Inr body \<Rightarrow>
          (case validate body of
             Inl err \<Rightarrow> (Inr (NotOk err), fs)
           | Inr updates \<Rightarrow>
               if updates \<noteq> []
               then
                 (case firestore_Client fs of
                    Inl e \<Rightarrow> (Inl e, fs)
                  | Inr db \<Rightarrow>
                      (case doc_set_merge updates fs of
                         Inl e \<Rightarrow> (Inl e, fs)
                       | Inr fs' \<Rightarrow>
                           (Inr (OkMessage ''Settings updated successfully''), fs')))
               else (Inr (OkMessage ''Settings updated successfully''), fs)))"

definition update_notification_settings ::
  "firestore \<Rightarrow> exn + body \<Rightarrow> (exn + response) \<times> firestore" where
  "update_notification_settings fs request =
     (case try_update_settings fs request of
        (Inl e, fs') \<Rightarrow> (Inr (NotOk (message e)), fs')
      | (Inr r, fs') \<Rightarrow> (Inr r, fs'))"

section \<open>The recent mentions\<close>

text \<open>The environment variables read when the module is loaded.\<close>

record config =
  GCP_PROJECT_ID :: string
  BQ_DATASET :: string
  BQ_MENTIONS_TABLE :: string

text \<open>
  What \<open>client.query\<close> receives: the SQL text and the \<open>query_parameters\<close> of the job
  configuration, each \<open>ScalarQueryParameter(name, type, value)\<close>.
\<close>

record query =
  sql :: string
  query_parameters :: "(string \<times> string \<times> int) list"

definition table_id :: "config \<Rightarrow> string" where
  "table_id cfg = GCP_PROJECT_ID cfg @ ''.'' @ BQ_DATASET cfg @ ''.'' @ BQ_MENTIONS_TABLE cfg"

text \<open>The lines of the SQL literal; each starts with a line feed and a tab.\<close>

definition nl_tab :: string where
  "nl_tab = [CHR 0x0A, CHR 0x09]"

definition where_clause :: string where
  "where_clause =
     ''WHERE CAST(created_at AS TIMESTAMP) > ''
     @ ''TIMESTAMP_SUB(CURRENT_TIMESTAMP(), INTERVAL @hours HOUR)''"

definition order_clause :: string where
  "order_clause = ''ORDER BY created_at DESC''"

definition sql_text :: "config \<Rightarrow> string" where
  "sql_text cfg =
     nl_tab @ ''SELECT video_name, keyword, text, video_url, start_sec, created_at''
     @ nl_tab @ ''FROM '' @ [CHR 0x60] @ table_id cfg @ [CHR 0x60]
     @ nl_tab @ where_clause
     @ nl_tab @ order_clause
     @ nl_tab"

definition build_query :: "config \<Rightarrow> int \<Rightarrow> query" where
  "build_query cfg hours =
     \<lparr>sql = sql_text cfg, query_parameters = [(''hours'', ''INT64'', hours)]\<rparr>"

text \<open>
  A result row. Each of the six selected columns is an attribute of the row that may be
  missing, hold SQL \<open>NULL\<close> (Python's \<open>None\<close>) or hold a value. The text columns hold
  strings, \<open>created_at\<close> is carried as the text \<open>str\<close> gives for it, and \<open>start_sec\<close>
  holds an integer (an \<open>INT64\<close>), a float (a \<open>FLOAT64\<close>: a finite value, an infinity or
  a NaN) or a string.
\<close>

datatype 'a attr = Missing | Null | Val 'a

datatype pyfloat = Finite rat | PosInf | NegInf | NaN

datatype sec_value = SInt int | SFloat pyfloat | SStr string

record row =
  video_name :: "string attr"
  keyword :: "string attr"
  mention_text :: "string attr"
  video_url :: "string attr"
  start_sec :: "sec_value attr"
  created_at :: "string attr"

text \<open>\<open>getattr(r, name, None)\<close>\<close>

fun getattr :: "'a attr \<Rightarrow> 'a option" where
  "getattr (Val v) = Some v"
| "getattr Null = None"
| "getattr Missing = None"

text \<open>
  \<open>int(x)\<close>: an integer is itself, a finite float is truncated towards zero, an
  infinity raises \<open>OverflowError\<close> and a NaN \<open>ValueError\<close>, a string is parsed;
  \<open>None\<close> is a raise.
\<close>

fun int_of_float :: "pyfloat \<Rightarrow> int option" where
  "int_of_float (Finite q) = Some (if 0 \<le> q then \<lfloor>q\<rfloor> else \<lceil>q\<rceil>)"
| "int_of_float PosInf = None"
| "int_of_float NegInf = None"
| "int_of_float NaN = None"

fun py_int :: "sec_value \<Rightarrow> int option" where
  "py_int (SInt n) = Some n"
| "py_int (SFloat x) = int_of_float x"
| "py_int (SStr s) = int_of_str s"

text \<open>
  The f-string \<open>f"{r.video_url}&t={int(r.start_sec)}s"\<close>; \<open>None\<close> is a raise: an
  \<open>AttributeError\<close> on a missing attribute, a \<open>TypeError\<close> on \<open>int(None)\<close>, the error
  of \<open>int\<close>, or that of formatting the integer. A \<open>NULL\<close> URL is formatted as \<open>None\<close>.
\<close>

definition link_text :: "row \<Rightarrow> string option" where
  "link_text r =
     (case video_url r of
        Missing \<Rightarrow> None
      | u \<Rightarrow>
          (case start_sec r of
             Val x \<Rightarrow>
               (case py_int x of
                  None \<Rightarrow> None
                | Some n \<Rightarrow>
                    (case format_int n of
                       None \<Rightarrow> None
                     | Some t \<Rightarrow>
                         Some ((case u of Val url \<Rightarrow> url | other \<Rightarrow> ''None'')
                               @ ''&t='' @ t @ ''s'')))
           | other \<Rightarrow> None))"

definition link_of :: "row \<Rightarrow> string option" where
  "link_of r = (case link_text r of Some l \<Rightarrow> Some l | None \<Rightarrow> getattr (video_url r))"

text \<open>One entry of \<open>results\<close>.\<close>

record mention =
  out_video_name :: "string option"
  out_keyword :: "string option"
  out_text :: "string option"
  out_video_url :: "string option"
  out_link :: "string option"
  out_start_sec :: "sec_value option"
  out_created_at :: string

definition shape :: "row \<Rightarrow> mention" where
  "shape r =
     \<lparr>out_video_name = getattr (video_name r),
      out_keyword = getattr (keyword r),
      out_text = getattr (mention_text r),
      out_video_url = getattr (video_url r),
      out_link = link_of r,
      out_start_sec = getattr (start_sec r),
      out_created_at = (case created_at r of Val t \<Rightarrow> t | other \<Rightarrow> ''None'')\<rparr>"

text \<open>
  The query engine: the exception \<open>bigquery.Client\<close> raises, if any, and for a query
  the exception that running it raises or the rows it yields. The handler has no
  \<open>try\<close> around either call.
\<close>

record bigquery =
  bq_client_error :: "exn option"
  run_query :: "query \<Rightarrow> exn + row list"

text \<open>\<open>{"count": len(results), "results": results}\<close>\<close>

record mentions =
  count :: nat
  results :: "mention list"

definition get_recent_mentions :: "config \<Rightarrow> bigquery \<Rightarrow> int \<Rightarrow> exn + mentions" where
  "get_recent_mentions cfg bq hours =
     (case bq_client_error bq of
        Some e \<Rightarrow> Inl e
      | None \<Rightarrow>
          (case run_query bq (build_query cfg hours) of
             Inl e \<Rightarrow> Inl e
           | Inr rows \<Rightarrow>
               (let results = map shape rows
                in Inr \<lparr>count = length results, results = results\<rparr>)))"

section \<open>The outcomes of the update handler\<close>

lemma split_nonempty: "split d s \<noteq> []"
  by (subst split.simps) (simp split: list.splits)

lemma get_settings_returns: "\<exists>r. get_notification_settings fs = (Inr r, fs)"
  by (simp add: get_notification_settings_def split: sum.splits)

lemma update_settings_returns:
  "\<exists>r fs'. update_notification_settings fs request = (Inr r, fs')"
  by (simp add: update_notification_settings_def split: sum.splits prod.splits)

lemma update_rejected:
  "validate body = Inl err \<Longrightarrow>
   update_notification_settings fs (Inr body) = (Inr (NotOk err), fs)"
  by (simp add: update_notification_settings_def try_update_settings_def)

lemma update_no_fields:
  "validate body = Inr [] \<Longrightarrow>
   update_notification_settings fs (Inr body) =
     (Inr (OkMessage ''Settings updated successfully''), fs)"
  by (simp add: update_notification_settings_def try_update_settings_def)

lemma update_written:
  "validate body = Inr updates \<Longrightarrow> updates \<noteq> [] \<Longrightarrow>
   client_error fs = None \<Longrightarrow> set_error fs = None \<Longrightarrow>
   update_notification_settings fs (Inr body) =
     (Inr (OkMessage ''Settings updated successfully''),
      fs\<lparr>document := Some (merge_fields (document fs) updates),
         writes := writes fs @ [updates]\<rparr>)"
  by (simp add: update_notification_settings_def try_update_settings_def
      firestore_Client_def doc_set_merge_def)

lemma update_client_fails:
  "validate body = Inr updates \<Longrightarrow> updates \<noteq> [] \<Longrightarrow> client_error fs = Some e \<Longrightarrow>
   update_notification_settings fs (Inr body) = (Inr (NotOk (message e)), fs)"
  by (simp add: update_notification_settings_def try_update_settings_def
      firestore_Client_def)

lemma update_set_fails:
  "validate body = Inr updates \<Longrightarrow> updates \<noteq> [] \<Longrightarrow>
   client_error fs = None \<Longrightarrow> set_error fs = Some e \<Longrightarrow>
   update_notification_settings fs (Inr body) = (Inr (NotOk (message e)), fs)"
  by (simp add: update_notification_settings_def try_update_settings_def
      firestore_Client_def doc_set_merge_def)

text \<open>A step that returns early does so whatever the dict holds by then.\<close>

lemma handle_sender_Inl:
  "handle_sender body u = Inl err \<Longrightarrow> handle_sender body u' = Inl err"
  by (auto simp: handle_sender_def Let_def split: option.splits jvalue.splits if_splits)

lemma handle_password_Inl:
  "handle_password body u = Inl err \<Longrightarrow> handle_password body u' = Inl err"
  by (auto simp: handle_password_def Let_def split: option.splits jvalue.splits if_splits)

lemma handle_recipients_Inl:
  "handle_recipients body u = Inl err \<Longrightarrow> handle_recipients body u' = Inl err"
  by (auto simp: handle_recipients_def Let_def split: option.splits jvalue.splits if_splits)

lemma validate_fails:
  assumes "(\<exists>u err. handle_sender body u = Inl err) \<or>
           (\<exists>u err. handle_password body u = Inl err) \<or>
           (\<exists>u err. handle_recipients body u = Inl err)"
  shows "\<exists>reason. validate body = Inl reason \<and>
           (handle_sender body [] = Inl reason \<or>
            (\<exists>u. handle_password body u = Inl reason) \<or>
            (\<exists>u. handle_recipients body u = Inl reason))"
proof (cases "handle_sender body []")
  case (Inl a)
  then show ?thesis by (auto simp: validate_def)
next
  case s: (Inr u1)
  show ?thesis
  proof (cases "handle_password body u1")
    case (Inl a)
    with s show ?thesis by (auto simp: validate_def)
  next
    case p: (Inr u2)
    show ?thesis
    proof (cases "handle_recipients body u2")
      case (Inl a)
      with s p show ?thesis by (auto simp: validate_def)
    next
      case (Inr u3)
      from assms s p Inr show ?thesis
        using handle_sender_Inl[of body _ _ "[]"] handle_password_Inl[of body _ _ u1]
          handle_recipients_Inl[of body _ _ u2]
        by (metis Inl_Inr_False)
    qed
  qed
qed

section \<open>Failed validation writes nothing\<close>

text \<open>
  C3. When the check of a field that is present fails (the step of the sender, of the
  password or of the recipients returns early), the handler answers
  \<open>{"ok": False, "error": reason}\<close>, the reason being the error text of one of the failing
  steps, and the store is what it was: the document is untouched and no \<open>set\<close> call was
  made, whatever the other fields of the request hold.
\<close>

theorem failed_validation_writes_nothing:
  assumes "(\<exists>u err. handle_sender body u = Inl err) \<or>
           (\<exists>u err. handle_password body u = Inl err) \<or>
           (\<exists>u err. handle_recipients body u = Inl err)"
  shows "\<exists>reason.
           update_notification_settings fs (Inr body) = (Inr (NotOk reason), fs) \<and>
           (handle_sender body [] = Inl reason \<or>
            (\<exists>u. handle_password body u = Inl reason) \<or>
            (\<exists>u. handle_recipients body u = Inl reason))"
proof -
  from validate_fails[OF assms] obtain reason where
    v: "validate body = Inl reason" and
    r: "handle_sender body [] = Inl reason \<or>
        (\<exists>u. handle_password body u = Inl reason) \<or>
        (\<exists>u. handle_recipients body u = Inl reason)"
    by blast
  from update_rejected[OF v] r show ?thesis by blast
qed

text \<open>
  The sender \<open>a@b.com\<close> is valid and the recipients \<open>a@x.com, b@y.com\<close> hold a space: the
  request is refused and the stored document stays.
\<close>

theorem failed_validation_writes_nothing_witness:
  "(\<exists>u err. handle_recipients
       [''sender'' \<mapsto> JStr ''a@b.com'', ''recipients'' \<mapsto> JStr ''a@x.com, b@y.com'']
       u = Inl err) \<and>
   (\<exists>reason. update_notification_settings
       \<lparr>document = Some [''password'' \<mapsto> FStr ''secret''], writes = [],
          client_error = None, get_error = None, set_error = None\<rparr>
       (Inr [''sender'' \<mapsto> JStr ''a@b.com'', ''recipients'' \<mapsto> JStr ''a@x.com, b@y.com''])
     = (Inr (NotOk reason),
        \<lparr>document = Some [''password'' \<mapsto> FStr ''secret''], writes = [],
           client_error = None, get_error = None, set_error = None\<rparr>))"
proof -
  let ?body = "[''sender'' \<mapsto> JStr ''a@b.com'', ''recipients'' \<mapsto> JStr ''a@x.com, b@y.com'']"
  have h: "\<exists>u err. handle_recipients ?body u = Inl err"
    by (simp add: handle_recipients_def strip_def isspace_def)
  then have "(\<exists>u err. handle_sender ?body u = Inl err) \<or>
             (\<exists>u err. handle_password ?body u = Inl err) \<or>
             (\<exists>u err. handle_recipients ?body u = Inl err)"
    by blast
  from failed_validation_writes_nothing[OF this] h show ?thesis by blast
qed

section \<open>Reading a document that does not exist\<close>

text \<open>
  C8. When the client and the read do not fail and the document
  \<open>settings/configuration\<close> does not exist, the read handler returns
  \<open>{"ok": True, "settings": {"sender": "", "password": "", "recipients": ""}}\<close> and the
  store is what it was: the document still does not exist and no \<open>set\<close> call was made.
\<close>

theorem read_of_missing_document:
  assumes "client_error fs = None" and "get_error fs = None" and "document fs = None"
  shows "get_notification_settings fs = (Inr (OkSettings (FStr []) (FStr []) []), fs)"
  using assms
  by (simp add: get_notification_settings_def try_get_settings_def firestore_Client_def
      doc_get_def)

theorem read_of_missing_document_witness:
  "get_notification_settings
     \<lparr>document = None, writes = [], client_error = None, get_error = None,
        set_error = None\<rparr>
   = (Inr (OkSettings (FStr []) (FStr []) []),
      \<lparr>document = None, writes = [], client_error = None, get_error = None,
         set_error = None\<rparr>)"
  by (rule read_of_missing_document) simp_all

section \<open>Errors of the stores\<close>

text \<open>
  C9. The two settings handlers always return a response, never an exception. When the
  Firestore client or the read raises \<open>e\<close>, the read handler returns
  \<open>{"ok": False, "error": str(e)}\<close>; when an update that has fields to write meets a
  client or a \<open>set\<close> that raises \<open>e\<close>, the update handler returns the same and the store
  is what it was. When the BigQuery client or the query raises \<open>e\<close>, the mentions handler
  returns no response: \<open>e\<close> leaves the handler.
\<close>

theorem settings_errors_reported_mentions_errors_propagate:
  "(\<exists>r. get_notification_settings fs = (Inr r, fs)) \<and>
   (\<exists>r fs'. update_notification_settings fs request = (Inr r, fs')) \<and>
   (client_error fs = Some e \<longrightarrow>
      get_notification_settings fs = (Inr (NotOk (message e)), fs)) \<and>
   (client_error fs = None \<and> get_error fs = Some e \<longrightarrow>
      get_notification_settings fs = (Inr (NotOk (message e)), fs)) \<and>
   (validate body = Inr updates \<and> updates \<noteq> [] \<and> client_error fs = Some e \<longrightarrow>
      update_notification_settings fs (Inr body) = (Inr (NotOk (message e)), fs)) \<and>
   (validate body = Inr updates \<and> updates \<noteq> [] \<and> client_error fs = None \<and>
    set_error fs = Some e \<longrightarrow>
      update_notification_settings fs (Inr body) = (Inr (NotOk (message e)), fs)) \<and>
   (bq_client_error bq = Some e \<longrightarrow> get_recent_mentions cfg bq hours = Inl e) \<and>
   (bq_client_error bq = None \<and> run_query bq (build_query cfg hours) = Inl e \<longrightarrow>
      get_recent_mentions cfg bq hours = Inl e)"
proof -
  have g1: "client_error fs = Some e \<longrightarrow>
      get_notification_settings fs = (Inr (NotOk (message e)), fs)"
    by (simp add: get_notification_settings_def try_get_settings_def firestore_Client_def)
  have g2: "client_error fs = None \<and> get_error fs = Some e \<longrightarrow>
      get_notification_settings fs = (Inr (NotOk (message e)), fs)"
    by (simp add: get_notification_settings_def try_get_settings_def firestore_Client_def
        doc_get_def)
  have m1: "bq_client_error bq = Some e \<longrightarrow> get_recent_mentions cfg bq hours = Inl e"
    by (simp add: get_recent_mentions_def)
  have m2: "bq_client_error bq = None \<and> run_query bq (build_query cfg hours) = Inl e \<longrightarrow>
      get_recent_mentions cfg bq hours = Inl e"
    by (simp add: get_recent_mentions_def)
  show ?thesis
    using g1 g2 m1 m2 get_settings_returns update_settings_returns
      update_client_fails update_set_fails
    by blast
qed

text \<open>
  A client without credentials, a read that fails, a \<open>set\<close> that is refused; a BigQuery
  client without credentials and a query that fails.
\<close>

theorem settings_errors_reported_mentions_errors_propagate_witness:
  "get_notification_settings
     \<lparr>document = None, writes = [], client_error = Some (Raised ''no credentials''),
        get_error = None, set_error = None\<rparr>
   = (Inr (NotOk ''no credentials''),
      \<lparr>document = None, writes = [], client_error = Some (Raised ''no credentials''),
         get_error = None, set_error = None\<rparr>) \<and>
   get_notification_settings
     \<lparr>document = None, writes = [], client_error = None,
        get_error = Some (Raised ''unavailable''), set_error = None\<rparr>
   = (Inr (NotOk ''unavailable''),
      \<lparr>document = None, writes = [], client_error = None,
         get_error = Some (Raised ''unavailable''), set_error = None\<rparr>) \<and>
   update_notification_settings
     \<lparr>document = None, writes = [], client_error = Some (Raised ''no credentials''),
        get_error = None, set_error = None\<rparr>
     (Inr [''password'' \<mapsto> JStr ''secret''])
   = (Inr (NotOk ''no credentials''),
      \<lparr>document = None, writes = [], client_error = Some (Raised ''no credentials''),
         get_error = None, set_error = None\<rparr>) \<and>
   update_notification_settings
     \<lparr>document = None, writes = [], client_error = None, get_error = None,
        set_error = Some (Raised ''permission denied'')\<rparr>
     (Inr [''password'' \<mapsto> JStr ''secret''])
   = (Inr (NotOk ''permission denied''),
      \<lparr>document = None, writes = [], client_error = None, get_error = None,
         set_error = Some (Raised ''permission denied'')\<rparr>) \<and>
   get_recent_mentions
     \<lparr>GCP_PROJECT_ID = ''p'', BQ_DATASET = ''d'', BQ_MENTIONS_TABLE = ''mentions''\<rparr>
     \<lparr>bq_client_error = Some (Raised ''no credentials''), run_query = (\<lambda>q. Inr [])\<rparr> 24
   = Inl (Raised ''no credentials'') \<and>
   get_recent_mentions
     \<lparr>GCP_PROJECT_ID = ''p'', BQ_DATASET = ''d'', BQ_MENTIONS_TABLE = ''mentions''\<rparr>
     \<lparr>bq_client_error = None, run_query = (\<lambda>q. Inl (Raised ''unavailable''))\<rparr> 24
   = Inl (Raised ''unavailable'')"
proof -
  let ?body = "[''password'' \<mapsto> JStr ''secret'']"
  let ?cfg = "\<lparr>GCP_PROJECT_ID = ''p'', BQ_DATASET = ''d'', BQ_MENTIONS_TABLE = ''mentions''\<rparr>"
  have v: "validate ?body = Inr [(''password'', FStr ''secret'')]"
    by (simp add: validate_def handle_sender_def handle_password_def handle_recipients_def
        strip_def isspace_def)
  note t = settings_errors_reported_mentions_errors_propagate
  show ?thesis
    using v
      t[of "\<lparr>document = None, writes = [], client_error = Some (Raised ''no credentials''),
              get_error = None, set_error = None\<rparr>" _ "Raised ''no credentials''" ?body
           "[(''password'', FStr ''secret'')]"
           "\<lparr>bq_client_error = Some (Raised ''no credentials''), run_query = (\<lambda>q. Inr [])\<rparr>"
           ?cfg 24]
      t[of "\<lparr>document = None, writes = [], client_error = None,
              get_error = Some (Raised ''unavailable''), set_error = None\<rparr>" _
           "Raised ''unavailable''" ?body "[(''password'', FStr ''secret'')]"
           "\<lparr>bq_client_error = None, run_query = (\<lambda>q. Inl (Raised ''unavailable''))\<rparr>"
           ?cfg 24]
      t[of "\<lparr>document = None, writes = [], client_error = None, get_error = None,
              set_error = Some (Raised ''permission denied'')\<rparr>" _
           "Raised ''permission denied''" ?body "[(''password'', FStr ''secret'')]"
           "\<lparr>bq_client_error = None, run_query = (\<lambda>q. Inl (Raised ''permission denied''))\<rparr>"
           ?cfg 24]
    by simp
qed

section \<open>What a successful update writes\<close>

text \<open>What each step adds to the dict when it does not return early.\<close>

lemma handle_sender_Inr:
  assumes "handle_sender body u = Inr u'"
  shows "((body ''sender'' = None \<or> body ''sender'' = Some JNull) \<and> u' = u) \<or>
         (\<exists>v. body ''sender'' = Some v \<and> v \<noteq> JNull \<and>
              u' = u @ [(''sender'', FStr (strip (py_str v)))])"
  using assms
  by (auto simp: handle_sender_def Let_def split: option.splits jvalue.splits if_splits)

lemma handle_password_Inr:
  assumes "handle_password body u = Inr u'"
  shows "((body ''password'' = None \<or> body ''password'' = Some JNull \<or>
           (\<exists>v. body ''password'' = Some v \<and> strip (py_str v) = [])) \<and> u' = u) \<or>
         (\<exists>v. body ''password'' = Some v \<and> v \<noteq> JNull \<and> strip (py_str v) \<noteq> [] \<and>
              u' = u @ [(''password'', FStr (strip (py_str v)))])"
  using assms
  by (auto simp: handle_password_def Let_def split: option.splits jvalue.splits if_splits)

lemma handle_recipients_Inr:
  assumes "handle_recipients body u = Inr u'"
  shows "((body ''recipients'' = None \<or> body ''recipients'' = Some JNull) \<and> u' = u) \<or>
         (\<exists>v. body ''recipients'' = Some v \<and> v \<noteq> JNull \<and>
              u' = u @ [(''recipients'',
                   FArr (map FStr (map strip (filter (\<lambda>e. strip e \<noteq> [])
                     (split CHR '','' (strip (py_str v)))))))])"
  using assms
  by (auto simp: handle_recipients_def Let_def split: option.splits jvalue.splits if_splits)

lemma merge_fields_other:
  "k \<notin> fst ` set u \<Longrightarrow>
   merge_fields d u k = (case d of None \<Rightarrow> None | Some f \<Rightarrow> f k)"
proof -
  assume "k \<notin> fst ` set u"
  then have "map_of u k = None" by (simp add: map_of_eq_None_iff)
  then show ?thesis by (simp add: merge_fields_def map_add_def split: option.splits)
qed

lemma merge_fields_written:
  "distinct (map fst u) \<Longrightarrow> (k, v) \<in> set u \<Longrightarrow> merge_fields d u k = Some v"
  by (simp add: merge_fields_def map_add_def)

lemma validate_Inr:
  assumes "validate body = Inr updates"
  shows "\<exists>u1 u2. handle_sender body [] = Inr u1 \<and> handle_password body u1 = Inr u2 \<and>
           handle_recipients body u2 = Inr updates"
  using assms by (auto simp: validate_def split: sum.splits)

lemma validated_fields:
  assumes "validate body = Inr updates"
  shows
    "(\<forall>k. k \<notin> fst ` set updates \<longrightarrow>
        merge_fields d updates k = (case d of None \<Rightarrow> None | Some f \<Rightarrow> f k)) \<and>
     (\<forall>k x. (k, x) \<in> set updates \<longrightarrow> merge_fields d updates k = Some x) \<and>
     (\<forall>k x. (k, x) \<in> set updates \<longrightarrow>
        (\<exists>v. body k = Some v \<and> v \<noteq> JNull \<and>
          (k = ''sender'' \<and> x = FStr (strip (py_str v)) \<or>
           k = ''password'' \<and> x = FStr (strip (py_str v)) \<and> strip (py_str v) \<noteq> [] \<or>
           k = ''recipients'' \<and>
             x = FArr (map FStr (map strip (filter (\<lambda>e. strip e \<noteq> [])
                   (split CHR '','' (strip (py_str v))))))))) \<and>
     ((\<exists>v. body ''sender'' = Some v \<and> v \<noteq> JNull) \<longrightarrow> ''sender'' \<in> fst ` set updates) \<and>
     ((\<exists>v. body ''password'' = Some v \<and> v \<noteq> JNull \<and> strip (py_str v) \<noteq> []) \<longrightarrow>
        ''password'' \<in> fst ` set updates) \<and>
     ((\<exists>v. body ''recipients'' = Some v \<and> v \<noteq> JNull) \<longrightarrow>
        ''recipients'' \<in> fst ` set updates)"
proof -
  from validate_Inr[OF assms(1)] obtain u1 u2 where
    s: "handle_sender body [] = Inr u1" and p: "handle_password body u1 = Inr u2" and
    r: "handle_recipients body u2 = Inr updates"
    by blast
  note S = handle_sender_Inr[OF s] and P = handle_password_Inr[OF p]
    and R = handle_recipients_Inr[OF r]
  have d: "distinct (map fst updates)"
    using S P R by auto
  have f: "\<forall>k. k \<notin> fst ` set updates \<longrightarrow>
        merge_fields d updates k = (case d of None \<Rightarrow> None | Some f \<Rightarrow> f k)"
    using merge_fields_other by blast
  have g: "\<forall>k x. (k, x) \<in> set updates \<longrightarrow> merge_fields d updates k = Some x"
    using merge_fields_written[OF d] by blast
  have c: "\<forall>k x. (k, x) \<in> set updates \<longrightarrow>
        (\<exists>v. body k = Some v \<and> v \<noteq> JNull \<and>
          (k = ''sender'' \<and> x = FStr (strip (py_str v)) \<or>
           k = ''password'' \<and> x = FStr (strip (py_str v)) \<and> strip (py_str v) \<noteq> [] \<or>
           k = ''recipients'' \<and>
             x = FArr (map FStr (map strip (filter (\<lambda>e. strip e \<noteq> [])
                   (split CHR '','' (strip (py_str v))))))))"
    using S P R by auto
  have k1: "(\<exists>v. body ''sender'' = Some v \<and> v \<noteq> JNull) \<longrightarrow> ''sender'' \<in> fst ` set updates"
    using S P R by force
  have k2: "(\<exists>v. body ''password'' = Some v \<and> v \<noteq> JNull \<and> strip (py_str v) \<noteq> []) \<longrightarrow>
        ''password'' \<in> fst ` set updates"
    using S P R by force
  have k3: "(\<exists>v. body ''recipients'' = Some v \<and> v \<noteq> JNull) \<longrightarrow>
        ''recipients'' \<in> fst ` set updates"
    using S P R by force
  from f g c k1 k2 k3 show ?thesis by blast
qed

lemma update_success:
  assumes "update_notification_settings fs (Inr body) = (Inr (OkMessage m), fs')"
  shows "\<exists>updates. validate body = Inr updates \<and>
           (updates \<noteq> [] \<longrightarrow>
              fs' = fs\<lparr>document := Some (merge_fields (document fs) updates),
                       writes := writes fs @ [updates]\<rparr>) \<and>
           (updates = [] \<longrightarrow> fs' = fs)"
  using assms
  by (auto simp: update_notification_settings_def try_update_settings_def
      firestore_Client_def doc_set_merge_def split: sum.splits option.splits if_splits)

text \<open>
  C5, as amended. When the handler answers a request with success, the three steps have
  passed and left a dict \<open>updates\<close>. When \<open>updates\<close> is not empty the store after the
  request is the store before it with exactly one more write, the merge of \<open>updates\<close>; when
  it is empty (no field is present with a value other than null, but for a password that
  is empty once trimmed) the store is what it was: nothing is written. The write holds
  exactly the fields of the request that are present and not null (the password only
  when not empty once trimmed), each with its normalised value; after it these fields
  hold the written values and every other field of the document holds what it held
  before.
\<close>

theorem successful_update_writes_validated_fields_once:
  assumes "update_notification_settings fs (Inr body) = (Inr (OkMessage m), fs')"
  shows
    "\<exists>updates.
       validate body = Inr updates \<and>
       (updates \<noteq> [] \<longrightarrow>
          fs' = fs\<lparr>document := Some (merge_fields (document fs) updates),
                   writes := writes fs @ [updates]\<rparr>) \<and>
       (updates = [] \<longrightarrow> fs' = fs) \<and>
       (\<forall>k. k \<notin> fst ` set updates \<longrightarrow>
          merge_fields (document fs) updates k =
            (case document fs of None \<Rightarrow> None | Some f \<Rightarrow> f k)) \<and>
       (\<forall>k x. (k, x) \<in> set updates \<longrightarrow> merge_fields (document fs) updates k = Some x) \<and>
       (\<forall>k x. (k, x) \<in> set updates \<longrightarrow>
          (\<exists>v. body k = Some v \<and> v \<noteq> JNull \<and>
            (k = ''sender'' \<and> x = FStr (strip (py_str v)) \<or>
             k = ''password'' \<and> x = FStr (strip (py_str v)) \<and> strip (py_str v) \<noteq> [] \<or>
             k = ''recipients'' \<and>
               x = FArr (map FStr (map strip (filter (\<lambda>e. strip e \<noteq> [])
                     (split CHR '','' (strip (py_str v))))))))) \<and>
       ((\<exists>v. body ''sender'' = Some v \<and> v \<noteq> JNull) \<longrightarrow> ''sender'' \<in> fst ` set updates) \<and>
       ((\<exists>v. body ''password'' = Some v \<and> v \<noteq> JNull \<and> strip (py_str v) \<noteq> []) \<longrightarrow>
          ''password'' \<in> fst ` set updates) \<and>
       ((\<exists>v. body ''recipients'' = Some v \<and> v \<noteq> JNull) \<longrightarrow>
          ''recipients'' \<in> fst ` set updates)"
proof -
  from update_success[OF assms] obtain updates where
    v: "validate body = Inr updates" and
    w: "updates \<noteq> [] \<longrightarrow>
          fs' = fs\<lparr>document := Some (merge_fields (document fs) updates),
                   writes := writes fs @ [updates]\<rparr>" and
    n: "updates = [] \<longrightarrow> fs' = fs"
    by blast
  from validated_fields[OF v, of "document fs"] v w n show ?thesis
    by (intro exI[of _ updates]) blast
qed

text \<open>
  A new sender with a password of two spaces: one write, of the sender alone, and the
  stored password stays.
\<close>

theorem successful_update_writes_validated_fields_once_witness:
  "update_notification_settings
     \<lparr>document = Some [''sender'' \<mapsto> FStr ''old@e.com'', ''password'' \<mapsto> FStr ''secret''],
        writes = [], client_error = None, get_error = None, set_error = None\<rparr>
     (Inr [''sender'' \<mapsto> JStr ''new@e.com'', ''password'' \<mapsto> JStr ''  ''])
   = (Inr (OkMessage ''Settings updated successfully''),
      \<lparr>document = Some [''sender'' \<mapsto> FStr ''new@e.com'', ''password'' \<mapsto> FStr ''secret''],
         writes = [[(''sender'', FStr ''new@e.com'')]],
         client_error = None, get_error = None, set_error = None\<rparr>) \<and>
   (\<exists>updates.
      validate [''sender'' \<mapsto> JStr ''new@e.com'', ''password'' \<mapsto> JStr ''  ''] = Inr updates \<and>
      updates = [(''sender'', FStr ''new@e.com'')] \<and>
      merge_fields (Some [''sender'' \<mapsto> FStr ''old@e.com'', ''password'' \<mapsto> FStr ''secret''])
        updates ''password'' = Some (FStr ''secret''))"
proof -
  let ?body = "[''sender'' \<mapsto> JStr ''new@e.com'', ''password'' \<mapsto> JStr ''  '']"
  let ?fs = "\<lparr>document = Some [''sender'' \<mapsto> FStr ''old@e.com'', ''password'' \<mapsto> FStr ''secret''],
        writes = [], client_error = None, get_error = None, set_error = None\<rparr>"
  let ?fs' = "\<lparr>document = Some [''sender'' \<mapsto> FStr ''new@e.com'', ''password'' \<mapsto> FStr ''secret''],
         writes = [[(''sender'', FStr ''new@e.com'')]],
         client_error = None, get_error = None, set_error = None\<rparr>"
  have v: "validate ?body = Inr [(''sender'', FStr ''new@e.com'')]"
    by (simp add: validate_def handle_sender_def handle_password_def handle_recipients_def
        strip_def isspace_def sender_pattern_def)
  have m: "merge_fields (Some [''sender'' \<mapsto> FStr ''old@e.com'', ''password'' \<mapsto> FStr ''secret''])
             [(''sender'', FStr ''new@e.com'')]
           = [''sender'' \<mapsto> FStr ''new@e.com'', ''password'' \<mapsto> FStr ''secret'']"
    by (auto simp: merge_fields_def map_add_def)
  have h: "update_notification_settings ?fs (Inr ?body) =
      (Inr (OkMessage ''Settings updated successfully''), ?fs')"
    using update_written[OF v, of ?fs] m by simp
  from successful_update_writes_validated_fields_once[OF h] obtain updates where
    u: "validate ?body = Inr updates" and
    f: "\<forall>k. k \<notin> fst ` set updates \<longrightarrow>
          merge_fields (document ?fs) updates k =
            (case document ?fs of None \<Rightarrow> None | Some f \<Rightarrow> f k)"
    by blast
  from u v have e: "updates = [(''sender'', FStr ''new@e.com'')]" by simp
  with f have "merge_fields (document ?fs) updates ''password'' = Some (FStr ''secret'')"
    by simp
  with h u e show ?thesis by simp
qed

text \<open>
  C5 as it is stated fails: a request whose only field is an empty password is
  successful and no write is made.
\<close>

theorem empty_password_succeeds_without_write:
  "[''password'' \<mapsto> JStr []] ''password'' = Some (JStr []) \<and>
   update_notification_settings
     \<lparr>document = None, writes = [], client_error = None, get_error = None,
        set_error = None\<rparr>
     (Inr [''password'' \<mapsto> JStr []])
   = (Inr (OkMessage ''Settings updated successfully''),
      \<lparr>document = None, writes = [], client_error = None, get_error = None,
         set_error = None\<rparr>)"
  by (simp add: update_notification_settings_def try_update_settings_def validate_def
      handle_sender_def handle_password_def handle_recipients_def strip_def)

section \<open>The sender check\<close>

text \<open>
  C1. The sender is trimmed and checked with \<open>re.match\<close>, which looks for the pattern at
  the start of the string and lets anything follow it. The sender \<open>a@b.com x\<close> holds a
  space and is its own trimmed form; the handler accepts it and writes it as it is.
\<close>

theorem sender_followed_by_text_is_stored:
  "list_ex isspace ''a@b.com x'' \<and>
   strip ''a@b.com x'' = ''a@b.com x'' \<and>
   update_notification_settings
     \<lparr>document = None, writes = [], client_error = None, get_error = None,
        set_error = None\<rparr>
     (Inr [''sender'' \<mapsto> JStr ''a@b.com x''])
   = (Inr (OkMessage ''Settings updated successfully''),
      \<lparr>document = Some [''sender'' \<mapsto> FStr ''a@b.com x''],
         writes = [[(''sender'', FStr ''a@b.com x'')]],
         client_error = None, get_error = None, set_error = None\<rparr>)"
proof -
  let ?body = "[''sender'' \<mapsto> JStr ''a@b.com x'']"
  have s: "strip ''a@b.com x'' = ''a@b.com x''"
    by (simp add: strip_def isspace_def)
  have w: "list_ex isspace ''a@b.com x''"
    by (simp add: isspace_def)
  have m: "re_match sender_pattern ''a@b.com x''"
    by (simp add: sender_pattern_def isspace_def)
  have v: "validate ?body = Inr [(''sender'', FStr ''a@b.com x'')]"
    by (simp add: validate_def handle_sender_def handle_password_def handle_recipients_def
        s m)
  have d: "merge_fields None [(''sender'', FStr ''a@b.com x'')] = [''sender'' \<mapsto> FStr ''a@b.com x'']"
    by (simp add: merge_fields_def)
  show ?thesis
    using s w d
    by (simp add: update_notification_settings_def try_update_settings_def v
        firestore_Client_def doc_set_merge_def)
qed

section \<open>The password check\<close>

text \<open>What \<open>strip\<close> removes is whitespace, and what it leaves starts and ends without.\<close>

lemma rev_drop_take: "rev (dropWhile P xs) @ rev (takeWhile P xs) = rev xs"
  by (metis rev_append takeWhile_dropWhile_id)

lemma last_dropWhile: "dropWhile P xs \<noteq> [] \<Longrightarrow> last (dropWhile P xs) = last xs"
  by (metis last_appendR takeWhile_dropWhile_id)

lemma strip_decomp:
  "\<exists>a b. s = a @ strip s @ b \<and> list_all isspace a \<and> list_all isspace b"
proof -
  let ?t = "dropWhile isspace s"
  have 1: "s = takeWhile isspace s @ ?t" by simp
  have 2: "?t = strip s @ rev (takeWhile isspace (rev ?t))"
    using rev_drop_take[of isspace "rev ?t"] by (simp add: strip_def)
  have 3: "list_all isspace (takeWhile isspace s)"
    by (simp add: list_all_iff) (meson set_takeWhileD)
  have 4: "list_all isspace (rev (takeWhile isspace (rev ?t)))"
    by (simp add: list_all_iff) (meson set_takeWhileD)
  from 1 2 have "s = takeWhile isspace s @ strip s @ rev (takeWhile isspace (rev ?t))"
    by simp
  with 3 4 show ?thesis by blast
qed

lemma strip_ends:
  assumes "strip s \<noteq> []"
  shows "\<not> isspace (hd (strip s)) \<and> \<not> isspace (last (strip s))"
proof -
  let ?t = "dropWhile isspace s"
  let ?d = "dropWhile isspace (rev ?t)"
  from assms have d: "?d \<noteq> []" by (simp add: strip_def)
  then have t: "?t \<noteq> []" by (cases ?t) simp_all
  have l: "\<not> isspace (hd ?d)" using d by (rule hd_dropWhile)
  have "\<not> isspace (hd ?t)" using t by (rule hd_dropWhile)
  moreover have "last ?d = hd ?t"
    using last_dropWhile[OF d] t by (simp add: last_rev)
  ultimately have h: "\<not> isspace (last ?d)" by simp
  from d l h show ?thesis
    by (simp add: strip_def hd_rev last_rev)
qed

lemma validate_without_empty_password:
  assumes "body ''password'' = Some v" and "strip (py_str v) = []"
  shows "validate (body(''password'' := None)) = validate body"
proof -
  have s: "handle_sender (body(''password'' := None)) u = handle_sender body u" for u
    by (simp add: handle_sender_def)
  have r: "handle_recipients (body(''password'' := None)) u = handle_recipients body u" for u
    by (simp add: handle_recipients_def)
  have p: "handle_password (body(''password'' := None)) u = Inr u" for u
    by (simp add: handle_password_def)
  have q: "handle_password body u = Inr u" for u
    using assms by (cases v) (simp_all add: handle_password_def)
  show ?thesis
    by (simp add: validate_def s r p q split: sum.splits)
qed

lemma update_depends_on_validate:
  "validate body = validate body' \<Longrightarrow>
   update_notification_settings fs (Inr body) = update_notification_settings fs (Inr body')"
  by (simp add: update_notification_settings_def try_update_settings_def)

text \<open>
  C6. When the password is present and not null it is trimmed: the trimmed text is the
  value without a run of whitespace at each end, and does not start or end with
  whitespace. When a character of the trimmed text is whitespace (then an inner one),
  the step returns the error of the password and the request is refused, the store
  being what it was. When the trimmed text is empty the step adds nothing and raises no
  error, and the request is answered as the same request without the password field.
  Otherwise the step puts the trimmed text in the dict.
\<close>

theorem password_trimmed_checked_and_skipped_when_empty:
  assumes "body ''password'' = Some v" and "v \<noteq> JNull"
  shows
    "(\<exists>a b. py_str v = a @ strip (py_str v) @ b \<and> list_all isspace a \<and> list_all isspace b) \<and>
     (strip (py_str v) \<noteq> [] \<longrightarrow>
        \<not> isspace (hd (strip (py_str v))) \<and> \<not> isspace (last (strip (py_str v)))) \<and>
     (list_ex isspace (strip (py_str v)) \<longrightarrow>
        (\<forall>u. handle_password body u = Inl ''Password must not contain whitespaces.'') \<and>
        (\<exists>reason. update_notification_settings fs (Inr body) = (Inr (NotOk reason), fs))) \<and>
     (strip (py_str v) = [] \<longrightarrow>
        (\<forall>u. handle_password body u = Inr u) \<and>
        update_notification_settings fs (Inr body) =
          update_notification_settings fs (Inr (body(''password'' := None)))) \<and>
     (\<not> list_ex isspace (strip (py_str v)) \<and> strip (py_str v) \<noteq> [] \<longrightarrow>
        (\<forall>u. handle_password body u = Inr (u @ [(''password'', FStr (strip (py_str v)))])))"
proof -
  have hp: "handle_password body u =
      (if list_ex isspace (strip (py_str v)) then Inl ''Password must not contain whitespaces.''
       else if strip (py_str v) \<noteq> [] then Inr (u @ [(''password'', FStr (strip (py_str v)))])
       else Inr u)" for u
    using assms by (cases v) (simp_all add: handle_password_def Let_def)
  have r: "list_ex isspace (strip (py_str v)) \<longrightarrow>
        (\<exists>reason. update_notification_settings fs (Inr body) = (Inr (NotOk reason), fs))"
  proof
    assume w: "list_ex isspace (strip (py_str v))"
    then have "\<exists>u err. handle_password body u = Inl err" by (simp add: hp)
    then have "(\<exists>u err. handle_sender body u = Inl err) \<or>
               (\<exists>u err. handle_password body u = Inl err) \<or>
               (\<exists>u err. handle_recipients body u = Inl err)" by blast
    from validate_fails[OF this] obtain reason where "validate body = Inl reason" by blast
    from update_rejected[OF this]
    show "\<exists>reason. update_notification_settings fs (Inr body) = (Inr (NotOk reason), fs)"
      by blast
  qed
  have e: "strip (py_str v) = [] \<longrightarrow>
        update_notification_settings fs (Inr body) =
          update_notification_settings fs (Inr (body(''password'' := None)))"
    using validate_without_empty_password[of body v] assms(1)
      update_depends_on_validate[of body "body(''password'' := None)" fs]
    by simp
  from strip_decomp[of "py_str v"] strip_ends[of "py_str v"] r e show ?thesis
    by (simp add: hp)
qed

text \<open>
  The password \<open>secret\<close> between spaces is stored trimmed, \<open>sec ret\<close> is refused, and an
  empty password leaves the stored one and is answered with success.
\<close>

theorem password_trimmed_checked_and_skipped_when_empty_witness:
  "handle_password [''password'' \<mapsto> JStr ''  secret  ''] [] =
     Inr [(''password'', FStr ''secret'')] \<and>
   handle_password [''password'' \<mapsto> JStr ''sec ret''] [] =
     Inl ''Password must not contain whitespaces.'' \<and>
   update_notification_settings
     \<lparr>document = Some [''password'' \<mapsto> FStr ''secret''], writes = [],
        client_error = None, get_error = None, set_error = None\<rparr>
     (Inr [''password'' \<mapsto> JStr []])
   = (Inr (OkMessage ''Settings updated successfully''),
      \<lparr>document = Some [''password'' \<mapsto> FStr ''secret''], writes = [],
         client_error = None, get_error = None, set_error = None\<rparr>)"
proof -
  let ?fs = "\<lparr>document = Some [''password'' \<mapsto> FStr ''secret''], writes = [],
        client_error = None, get_error = None, set_error = None\<rparr>"
  note t = password_trimmed_checked_and_skipped_when_empty
  have s1: "strip ''  secret  '' = ''secret''" by (simp add: strip_def isspace_def)
  have s2: "strip ''sec ret'' = ''sec ret''" by (simp add: strip_def isspace_def)
  have s3: "strip [] = []" by (simp add: strip_def)
  have w1: "\<not> list_ex isspace ''secret''" by (simp add: isspace_def)
  have w2: "list_ex isspace ''sec ret''" by (simp add: isspace_def)
  have v: "validate Map.empty = Inr []"
    by (simp add: validate_def handle_sender_def handle_password_def handle_recipients_def)
  have a: "handle_password [''password'' \<mapsto> JStr ''  secret  ''] [] =
     Inr [(''password'', FStr ''secret'')]"
    using t[of "[''password'' \<mapsto> JStr ''  secret  '']" "JStr ''  secret  ''" ?fs] s1 w1
    by (simp add: isspace_def)
  have b: "handle_password [''password'' \<mapsto> JStr ''sec ret''] [] =
     Inl ''Password must not contain whitespaces.''"
    using t[of "[''password'' \<mapsto> JStr ''sec ret'']" "JStr ''sec ret''" ?fs] s2 w2
    by (simp add: isspace_def)
  have c: "update_notification_settings ?fs (Inr [''password'' \<mapsto> JStr []]) =
     (Inr (OkMessage ''Settings updated successfully''), ?fs)"
    using t[of "[''password'' \<mapsto> JStr []]" "JStr []" ?fs] s3 update_no_fields[OF v, of ?fs]
    by simp
  from a b c show ?thesis by blast
qed

section \<open>The recipients check\<close>

text \<open>
  \<open>split\<close> cuts at every separator and nowhere else: the pieces hold no separator and,
  joined by it, give the string back.
\<close>

lemma split_no_separator: "seg \<in> set (split d s) \<Longrightarrow> d \<notin> set seg"
proof (induction d s arbitrary: seg rule: split.induct)
  case (1 d s)
  show ?case
  proof (cases "dropWhile (\<lambda>c. c \<noteq> d) s")
    case Nil
    then have "split d s = [s]" by (subst split.simps) (simp only: list.case)
    moreover from Nil have "d \<notin> set s" by (auto simp: dropWhile_eq_Nil_conv)
    ultimately show ?thesis using "1.prems" by simp
  next
    case (Cons c rest)
    then have e: "split d s = takeWhile (\<lambda>c. c \<noteq> d) s # split d rest"
      by (subst split.simps) (simp only: list.case)
    have "d \<notin> set (takeWhile (\<lambda>c. c \<noteq> d) s)"
      using set_takeWhileD[of d "\<lambda>c. c \<noteq> d" s] by blast
    with e "1.prems" "1.IH"[OF Cons] show ?thesis by auto
  qed
qed

lemma join_split: "join [d] (split d s) = s"
proof (induction d s rule: split.induct)
  case (1 d s)
  show ?case
  proof (cases "dropWhile (\<lambda>c. c \<noteq> d) s")
    case Nil
    then have "split d s = [s]" by (subst split.simps) (simp only: list.case)
    then show ?thesis by simp
  next
    case (Cons c rest)
    then have e: "split d s = takeWhile (\<lambda>c. c \<noteq> d) s # split d rest"
      by (subst split.simps) (simp only: list.case)
    from Cons have c: "c = d"
      using hd_dropWhile[of "\<lambda>c. c \<noteq> d" s] by simp
    obtain w ws where r: "split d rest = w # ws"
      using split_nonempty[of d rest] by (cases "split d rest") auto
    have "s = takeWhile (\<lambda>c. c \<noteq> d) s @ dropWhile (\<lambda>c. c \<noteq> d) s" by simp
    then have "s = takeWhile (\<lambda>c. c \<noteq> d) s @ d # rest" using Cons c by simp
    moreover have "join [d] (split d s) = takeWhile (\<lambda>c. c \<noteq> d) s @ d # join [d] (split d rest)"
      using e r by simp
    ultimately show ?thesis using "1.IH"[OF Cons] by simp
  qed
qed

lemma find_first:
  "find P xs = (if list_ex P xs then Some (hd (filter P xs)) else None)"
  by (induction xs) auto

lemma trim_then_drop:
  "map strip (filter (\<lambda>e. strip e \<noteq> []) xs) = filter (\<lambda>e. e \<noteq> []) (map strip xs)"
  by (induction xs) auto

text \<open>
  C4. Trimming a string removes a run of whitespace at each of its ends and leaves a
  text that does not start or end with whitespace. Let the recipients be present and not
  null, \<open>val\<close> the trimmed value and \<open>candidates\<close> the pieces of \<open>val\<close> between its commas,
  each trimmed, the empty ones dropped, in their order and with their repetitions; no
  candidate is empty or has whitespace at an end. When \<open>val\<close> holds a space, the step
  returns the error of the spaces and the request is refused, the store being what it
  was. Otherwise, when a candidate has no \<open>@\<close>, the step returns the error that names the
  first such candidate and the request is refused in the same way. Otherwise the step
  puts the list of the candidates in the dict, and a request that passes the other
  checks, on a store that does not fail, writes it: the stored recipients are that list.
\<close>

theorem recipients_split_checked_and_stored:
  fixes v :: jvalue and val :: string and candidates :: "string list"
  defines "val \<equiv> strip (py_str v)"
    and "candidates \<equiv> filter (\<lambda>e. e \<noteq> []) (map strip (split CHR '','' val))"
  assumes "body ''recipients'' = Some v" and "v \<noteq> JNull"
  shows
    "(\<forall>t. (\<exists>a b. t = a @ strip t @ b \<and> list_all isspace a \<and> list_all isspace b) \<and>
          (strip t \<noteq> [] \<longrightarrow> \<not> isspace (hd (strip t)) \<and> \<not> isspace (last (strip t)))) \<and>
     (\<forall>c. c \<in> set candidates \<longrightarrow> c \<noteq> [] \<and> \<not> isspace (hd c) \<and> \<not> isspace (last c)) \<and>
     join '','' (split CHR '','' val) = val \<and>
     (\<forall>seg. seg \<in> set (split CHR '','' val) \<longrightarrow> CHR '','' \<notin> set seg) \<and>
     (CHR '' '' \<in> set val \<longrightarrow>
        (\<forall>u. handle_recipients body u =
              Inl ''Recipients must be comma-separated with NO spaces.'') \<and>
        (\<exists>reason. update_notification_settings fs (Inr body) = (Inr (NotOk reason), fs))) \<and>
     (CHR '' '' \<notin> set val \<and> list_ex (\<lambda>e. CHR ''@'' \<notin> set e) candidates \<longrightarrow>
        (\<forall>u. handle_recipients body u =
              Inl (''Invalid email in recipients: ''
                   @ hd (filter (\<lambda>e. CHR ''@'' \<notin> set e) candidates))) \<and>
        (\<exists>reason. update_notification_settings fs (Inr body) = (Inr (NotOk reason), fs))) \<and>
     (CHR '' '' \<notin> set val \<and> \<not> list_ex (\<lambda>e. CHR ''@'' \<notin> set e) candidates \<longrightarrow>
        (\<forall>u. handle_recipients body u =
              Inr (u @ [(''recipients'', FArr (map FStr candidates))])) \<and>
        (\<forall>updates.
            validate body = Inr updates \<and> client_error fs = None \<and> set_error fs = None \<longrightarrow>
            update_notification_settings fs (Inr body) =
              (Inr (OkMessage ''Settings updated successfully''),
               fs\<lparr>document := Some (merge_fields (document fs) updates),
                  writes := writes fs @ [updates]\<rparr>) \<and>
            merge_fields (document fs) updates ''recipients'' =
              Some (FArr (map FStr candidates))))"
proof -
  have c: "map strip (filter (\<lambda>e. strip e \<noteq> []) (split CHR '','' val)) = candidates"
    by (simp add: candidates_def trim_then_drop)
  have hr: "handle_recipients body u =
      (if CHR '' '' \<in> set val
       then Inl ''Recipients must be comma-separated with NO spaces.''
       else if list_ex (\<lambda>e. CHR ''@'' \<notin> set e) candidates
       then Inl (''Invalid email in recipients: ''
                 @ hd (filter (\<lambda>e. CHR ''@'' \<notin> set e) candidates))
       else Inr (u @ [(''recipients'', FArr (map FStr candidates))]))" for u
    using assms(3,4) c
    by (cases v) (simp_all add: handle_recipients_def Let_def val_def find_first)
  have rej: "\<exists>reason. update_notification_settings fs (Inr body) = (Inr (NotOk reason), fs)"
    if "\<exists>u err. handle_recipients body u = Inl err"
  proof -
    from that have "(\<exists>u err. handle_sender body u = Inl err) \<or>
               (\<exists>u err. handle_password body u = Inl err) \<or>
               (\<exists>u err. handle_recipients body u = Inl err)" by blast
    from validate_fails[OF this] obtain reason where "validate body = Inl reason" by blast
    from update_rejected[OF this] show ?thesis by blast
  qed
  have r1: "CHR '' '' \<in> set val \<longrightarrow>
        (\<exists>reason. update_notification_settings fs (Inr body) = (Inr (NotOk reason), fs))"
    using rej by (simp add: hr)
  have r2: "CHR '' '' \<notin> set val \<and> list_ex (\<lambda>e. CHR ''@'' \<notin> set e) candidates \<longrightarrow>
        (\<exists>reason. update_notification_settings fs (Inr body) = (Inr (NotOk reason), fs))"
    using rej by (simp add: hr)
  have w: "update_notification_settings fs (Inr body) =
              (Inr (OkMessage ''Settings updated successfully''),
               fs\<lparr>document := Some (merge_fields (document fs) updates),
                  writes := writes fs @ [updates]\<rparr>) \<and>
            merge_fields (document fs) updates ''recipients'' =
              Some (FArr (map FStr candidates))"
    if ok: "CHR '' '' \<notin> set val" "\<not> list_ex (\<lambda>e. CHR ''@'' \<notin> set e) candidates"
      and v: "validate body = Inr updates" and f: "client_error fs = None" "set_error fs = None"
    for updates
  proof -
    from validate_Inr[OF v] obtain u1 u2 where
      s: "handle_sender body [] = Inr u1" and p: "handle_password body u1 = Inr u2" and
      r: "handle_recipients body u2 = Inr updates"
      by blast
    from r ok have u: "updates = u2 @ [(''recipients'', FArr (map FStr candidates))]"
      by (simp add: hr)
    have d: "distinct (map fst updates)"
      using handle_sender_Inr[OF s] handle_password_Inr[OF p] u by auto
    have "merge_fields (document fs) updates ''recipients'' = Some (FArr (map FStr candidates))"
      using merge_fields_written[OF d, of "''recipients''"] u by simp
    moreover have "updates \<noteq> []" using u by simp
    from update_written[OF v this f] have
      "update_notification_settings fs (Inr body) =
              (Inr (OkMessage ''Settings updated successfully''),
               fs\<lparr>document := Some (merge_fields (document fs) updates),
                  writes := writes fs @ [updates]\<rparr>)" .
    ultimately show ?thesis by blast
  qed
  have j: "join '','' (split CHR '','' val) = val"
    by (rule join_split)
  have n: "\<forall>seg. seg \<in> set (split CHR '','' val) \<longrightarrow> CHR '','' \<notin> set seg"
    using split_no_separator by blast
  have st: "\<forall>t. (\<exists>a b. t = a @ strip t @ b \<and> list_all isspace a \<and> list_all isspace b) \<and>
          (strip t \<noteq> [] \<longrightarrow> \<not> isspace (hd (strip t)) \<and> \<not> isspace (last (strip t)))"
    using strip_decomp strip_ends by blast
  have ce: "\<forall>c. c \<in> set candidates \<longrightarrow> c \<noteq> [] \<and> \<not> isspace (hd c) \<and> \<not> isspace (last c)"
    using strip_ends by (auto simp: candidates_def)
  have rest: "join '','' (split CHR '','' val) = val \<and>
     (\<forall>seg. seg \<in> set (split CHR '','' val) \<longrightarrow> CHR '','' \<notin> set seg) \<and>
     (CHR '' '' \<in> set val \<longrightarrow>
        (\<forall>u. handle_recipients body u =
              Inl ''Recipients must be comma-separated with NO spaces.'') \<and>
        (\<exists>reason. update_notification_settings fs (Inr body) = (Inr (NotOk reason), fs))) \<and>
     (CHR '' '' \<notin> set val \<and> list_ex (\<lambda>e. CHR ''@'' \<notin> set e) candidates \<longrightarrow>
        (\<forall>u. handle_recipients body u =
              Inl (''Invalid email in recipients: ''
                   @ hd (filter (\<lambda>e. CHR ''@'' \<notin> set e) candidates))) \<and>
        (\<exists>reason. update_notification_settings fs (Inr body) = (Inr (NotOk reason), fs))) \<and>
     (CHR '' '' \<notin> set val \<and> \<not> list_ex (\<lambda>e. CHR ''@'' \<notin> set e) candidates \<longrightarrow>
        (\<forall>u. handle_recipients body u =
              Inr (u @ [(''recipients'', FArr (map FStr candidates))])) \<and>
        (\<forall>updates.
            validate body = Inr updates \<and> client_error fs = None \<and> set_error fs = None \<longrightarrow>
            update_notification_settings fs (Inr body) =
              (Inr (OkMessage ''Settings updated successfully''),
               fs\<lparr>document := Some (merge_fields (document fs) updates),
                  writes := writes fs @ [updates]\<rparr>) \<and>
            merge_fields (document fs) updates ''recipients'' =
              Some (FArr (map FStr candidates))))"
    using j n r1 r2 w by (simp add: hr)
  from st ce rest show ?thesis by blast
qed

text \<open>
  Each value has spaces around it, which are trimmed. A space after a comma is refused;
  of two candidates without \<open>@\<close> the first is named, without the tab before it; an empty
  piece is dropped, a tab is trimmed and a repeated address is kept, in the order given.
\<close>

theorem recipients_split_checked_and_stored_witness:
  "handle_recipients [''recipients'' \<mapsto> JStr ''  a@x.com, b@y.com  ''] [] =
     Inl ''Recipients must be comma-separated with NO spaces.'' \<and>
   handle_recipients
     [''recipients'' \<mapsto> JStr ('' a@x.com,'' @ [CHR 0x09] @ ''notanemail,other '')] [] =
     Inl ''Invalid email in recipients: notanemail'' \<and>
   update_notification_settings
     \<lparr>document = None, writes = [], client_error = None, get_error = None,
        set_error = None\<rparr>
     (Inr [''recipients'' \<mapsto> JStr (''  b@y.com,,'' @ [CHR 0x09] @ ''a@x.com,b@y.com '')])
   = (Inr (OkMessage ''Settings updated successfully''),
      \<lparr>document = Some [''recipients'' \<mapsto> FArr [FStr ''b@y.com'', FStr ''a@x.com'', FStr ''b@y.com'']],
         writes = [[(''recipients'', FArr [FStr ''b@y.com'', FStr ''a@x.com'', FStr ''b@y.com''])]],
         client_error = None, get_error = None, set_error = None\<rparr>)"
proof -
  let ?fs = "\<lparr>document = None, writes = [], client_error = None, get_error = None,
        set_error = None\<rparr>"
  let ?v1 = "JStr ''  a@x.com, b@y.com  ''"
  let ?v2 = "JStr ('' a@x.com,'' @ [CHR 0x09] @ ''notanemail,other '')"
  let ?v3 = "JStr (''  b@y.com,,'' @ [CHR 0x09] @ ''a@x.com,b@y.com '')"
  let ?b3 = "[''recipients'' \<mapsto> ?v3]"
  let ?u3 = "[(''recipients'', FArr [FStr ''b@y.com'', FStr ''a@x.com'', FStr ''b@y.com''])]"
  note t = recipients_split_checked_and_stored
  have s1: "strip (py_str ?v1) = ''a@x.com, b@y.com''"
    by (simp add: strip_def isspace_def)
  have s2: "strip (py_str ?v2) = ''a@x.com,'' @ [CHR 0x09] @ ''notanemail,other''"
    by (simp add: strip_def isspace_def)
  have s3: "strip (py_str ?v3) = ''b@y.com,,'' @ [CHR 0x09] @ ''a@x.com,b@y.com''"
    by (simp add: strip_def isspace_def)
  have p2: "map strip (split CHR '','' (''a@x.com,'' @ [CHR 0x09] @ ''notanemail,other'')) =
      [''a@x.com'', ''notanemail'', ''other'']"
    by (simp add: split.simps strip_def isspace_def)
  have p3: "map strip (split CHR '','' (''b@y.com,,'' @ [CHR 0x09] @ ''a@x.com,b@y.com'')) =
      [''b@y.com'', [], ''a@x.com'', ''b@y.com'']"
    by (simp add: split.simps strip_def isspace_def)
  have sp: "CHR '' '' \<in> set ''a@x.com, b@y.com''" by simp
  have n2: "CHR '' '' \<notin> set (''a@x.com,'' @ [CHR 0x09] @ ''notanemail,other'')" by simp
  have n3: "CHR '' '' \<notin> set (''b@y.com,,'' @ [CHR 0x09] @ ''a@x.com,b@y.com'')" by simp
  have a: "handle_recipients [''recipients'' \<mapsto> ?v1] [] =
     Inl ''Recipients must be comma-separated with NO spaces.''"
    using t[of "[''recipients'' \<mapsto> ?v1]" ?v1 ?fs,
        THEN conjunct2, THEN conjunct2, THEN conjunct2, THEN conjunct2, THEN conjunct1] sp
    by (simp only: s1, simp)
  have b: "handle_recipients [''recipients'' \<mapsto> ?v2] [] =
     Inl ''Invalid email in recipients: notanemail''"
    using t[of "[''recipients'' \<mapsto> ?v2]" ?v2 ?fs,
        THEN conjunct2, THEN conjunct2, THEN conjunct2, THEN conjunct2, THEN conjunct2,
        THEN conjunct1] n2
    by (simp only: s2 p2, simp)
  have b3: "?b3 ''recipients'' = Some ?v3" by simp
  have nn: "?v3 \<noteq> JNull" by simp
  note t3 = t[of ?b3 ?v3 ?fs, OF b3 nn,
        THEN conjunct2, THEN conjunct2, THEN conjunct2, THEN conjunct2, THEN conjunct2,
        THEN conjunct2]
  have pre: "CHR '' '' \<notin> set (strip (py_str ?v3)) \<and>
      \<not> list_ex (\<lambda>e. CHR ''@'' \<notin> set e)
          (filter (\<lambda>e. e \<noteq> []) (map strip (split CHR '','' (strip (py_str ?v3)))))"
    using n3 by (simp only: s3 p3, simp)
  note ok = t3[THEN mp, OF pre]
  have h3: "handle_recipients ?b3 [] = Inr ?u3"
    using ok[THEN conjunct1, THEN spec, of "[]"] by (simp only: s3 p3, simp)
  have v: "validate ?b3 = Inr ?u3"
    using h3 by (simp add: validate_def handle_sender_def handle_password_def)
  have m: "merge_fields None ?u3 =
      [''recipients'' \<mapsto> FArr [FStr ''b@y.com'', FStr ''a@x.com'', FStr ''b@y.com'']]"
    by (simp add: merge_fields_def)
  have f: "validate ?b3 = Inr ?u3 \<and> client_error ?fs = None \<and> set_error ?fs = None"
    using v by simp
  have c: "update_notification_settings ?fs (Inr ?b3) =
      (Inr (OkMessage ''Settings updated successfully''),
       ?fs\<lparr>document := Some (merge_fields (document ?fs) ?u3), writes := writes ?fs @ [?u3]\<rparr>)"
    using ok[THEN conjunct2, THEN spec, of ?u3, THEN mp, OF f] by blast
  from a b c m show ?thesis by simp
qed



section \<open>The link of a mention\<close>

text \<open>
  The decimal text of an integer: its length, its digits, and \<open>int\<close> reading it back.
\<close>

lemma nat_str_length: "n < 10 ^ k \<Longrightarrow> 0 < k \<Longrightarrow> length (nat_str n) \<le> k"
proof (induction k arbitrary: n)
  case 0
  then show ?case by simp
next
  case (Suc k)
  show ?case
  proof (cases "n < 10")
    case True
    then show ?thesis by (simp add: nat_str.simps[of n])
  next
    case False
    with Suc.prems have k: "0 < k" by (cases k) auto
    from Suc.prems have "n div 10 < 10 ^ k" by (simp add: less_mult_imp_div_less mult.commute)
    from Suc.IH[OF this k] False show ?thesis by (simp add: nat_str.simps[of n])
  qed
qed

lemma digit_nth: "k < 10 \<Longrightarrow> is_digit (''0123456789'' ! k)"
  unfolding is_digit_def by (rule nth_mem) simp

lemma digit_val: "k < 10 \<Longrightarrow> of_char (''0123456789'' ! k) = 48 + (k :: nat)"
proof -
  assume "k < 10"
  then consider "k = 0" | "k = 1" | "k = 2" | "k = 3" | "k = 4" | "k = 5" | "k = 6"
    | "k = 7" | "k = 8" | "k = 9" by atomize_elim arith
  then show ?thesis by cases simp_all
qed

lemma is_digit_cases:
  assumes "is_digit c"
  shows "\<not> int_space c \<and> c \<noteq> CHR ''_'' \<and> c \<noteq> CHR ''-'' \<and> c \<noteq> CHR ''+'' \<and>
         (of_char c :: nat) - 48 \<le> 9"
  using assms by (auto simp: is_digit_def int_space_def)

lemma nat_str_digits: "nat_str n \<noteq> [] \<and> list_all is_digit (nat_str n)"
proof (induction n rule: nat_str.induct)
  case (1 n)
  show ?case
  proof (cases "n < 10")
    case True
    then show ?thesis by (simp add: nat_str.simps[of n] digit_nth)
  next
    case False
    with 1 show ?thesis by (simp add: nat_str.simps[of n] digit_nth)
  qed
qed

lemma digits_ok_all: "s \<noteq> [] \<Longrightarrow> list_all is_digit s \<Longrightarrow> digits_ok s"
proof (induction s rule: digits_ok.induct)
  case 1
  then show ?case by simp
next
  case (2 c)
  then show ?case by simp
next
  case (3 c d s)
  then show ?case using is_digit_cases[of d] by simp
qed

lemma filter_digits: "list_all is_digit s \<Longrightarrow> filter (\<lambda>c. c \<noteq> CHR ''_'') s = s"
  using is_digit_cases by (induction s) auto

lemma foldl_nat_str:
  "foldl (\<lambda>a c. 10 * a + (of_char c - 48)) 0 (nat_str n) = n"
proof (induction n rule: nat_str.induct)
  case (1 n)
  show ?case
  proof (cases "n < 10")
    case True
    then show ?thesis by (simp add: nat_str.simps[of n] digit_val)
  next
    case False
    with 1 show ?thesis by (simp add: nat_str.simps[of n] digit_val)
  qed
qed

lemma parse_nat_str:
  "length (nat_str n) \<le> max_str_digits \<Longrightarrow> parse_digits (nat_str n) = Some n"
  using nat_str_digits[of n]
  by (simp add: parse_digits_def digits_ok_all filter_digits digits_value_def foldl_nat_str)

lemma int_strip_id:
  assumes "s \<noteq> []" and "\<not> int_space (hd s)" and "\<not> int_space (last s)"
  shows "int_strip s = s"
proof -
  from assms have 1: "dropWhile int_space s = s"
    by (simp add: dropWhile_eq_self_iff)
  from assms have "dropWhile int_space (rev s) = rev s"
    by (simp add: dropWhile_eq_self_iff hd_rev)
  with 1 show ?thesis by (simp add: int_strip_def)
qed

lemma int_of_int_str:
  assumes "length (nat_str (nat \<bar>i\<bar>)) \<le> max_str_digits"
  shows "int_of_str (int_str i) = Some i"
proof (cases "i < 0")
  case True
  let ?k = "nat (- i)"
  from True have a: "nat \<bar>i\<bar> = ?k" by simp
  from nat_str_digits[of ?k] obtain c r where cr: "nat_str ?k = c # r"
    by (cases "nat_str ?k") auto
  have l: "is_digit (last (nat_str ?k))"
    using nat_str_digits[of ?k] by (simp add: list_all_iff)
  have "int_strip (CHR ''-'' # nat_str ?k) = CHR ''-'' # nat_str ?k"
    using l is_digit_cases[of "last (nat_str ?k)"] cr
    by (intro int_strip_id) (simp_all add: int_space_def)
  with True assms a show ?thesis
    by (simp add: int_of_str_def int_str_def parse_nat_str)
next
  case False
  let ?k = "nat i"
  from False have a: "nat \<bar>i\<bar> = ?k" by simp
  from nat_str_digits[of ?k] obtain c r where cr: "nat_str ?k = c # r"
    by (cases "nat_str ?k") auto
  have c: "is_digit c" and l: "is_digit (last (nat_str ?k))"
    using nat_str_digits[of ?k] cr by (simp_all add: list_all_iff)
  have s: "int_strip (nat_str ?k) = nat_str ?k"
    using c l is_digit_cases[of c] is_digit_cases[of "last (nat_str ?k)"] cr
    by (intro int_strip_id) simp_all
  have p: "parse_digits (c # r) = Some ?k"
    using parse_nat_str[of ?k] assms a cr by simp
  from False s cr p c is_digit_cases[of c] show ?thesis
    by (simp add: int_of_str_def int_str_def)
qed


lemma digits_ok_filter:
  "digits_ok s \<Longrightarrow>
   filter (\<lambda>c. c \<noteq> CHR ''_'') s \<noteq> [] \<and> list_all is_digit (filter (\<lambda>c. c \<noteq> CHR ''_'') s)"
proof (induction s rule: digits_ok.induct)
  case 1
  then show ?case by simp
next
  case (2 c)
  then show ?case using is_digit_cases[of c] by simp
next
  case (3 c d s)
  then show ?case using is_digit_cases[of c] by (auto split: if_splits)
qed

lemma foldl_digits_bound:
  "list_all is_digit ds \<Longrightarrow>
   foldl (\<lambda>a c. 10 * a + (of_char c - 48)) a ds < ((a :: nat) + 1) * 10 ^ length ds"
proof (induction ds arbitrary: a)
  case Nil
  then show ?case by simp
next
  case (Cons c ds)
  then have d: "(of_char c :: nat) - 48 \<le> 9" and r: "list_all is_digit ds"
    using is_digit_cases[of c] by simp_all
  have "foldl (\<lambda>a c. 10 * a + (of_char c - 48)) (10 * a + (of_char c - 48)) ds
        < (10 * a + (of_char c - 48) + 1) * 10 ^ length ds"
    by (rule Cons.IH[OF r])
  also have "\<dots> \<le> (10 * (a + 1)) * 10 ^ length ds"
    using d by (intro mult_right_mono) simp_all
  also have "\<dots> = (a + 1) * 10 ^ length (c # ds)"
    by (simp add: algebra_simps)
  finally show ?case by simp
qed

lemma parse_digits_bound:
  assumes "parse_digits s = Some n"
  shows "length (nat_str n) \<le> max_str_digits"
proof -
  let ?ds = "filter (\<lambda>c. c \<noteq> CHR ''_'') s"
  from assms have ok: "digits_ok s" and l: "length ?ds \<le> max_str_digits"
    and n: "n = digits_value s"
    by (auto simp: parse_digits_def split: if_splits)
  from digits_ok_filter[OF ok] have ne: "0 < length ?ds" and d: "list_all is_digit ?ds"
    by simp_all
  from foldl_digits_bound[OF d, of 0] n have "n < 10 ^ length ?ds"
    by (simp add: digits_value_def)
  from nat_str_length[OF this ne] l show ?thesis by simp
qed

lemma int_of_str_bound:
  assumes "int_of_str s = Some i"
  shows "length (nat_str (nat \<bar>i\<bar>)) \<le> max_str_digits"
proof -
  from assms obtain t n where "parse_digits t = Some n" and "i = int n \<or> i = - int n"
    by (auto simp: int_of_str_def split: list.splits if_splits)
  then show ?thesis using parse_digits_bound[of t n] by auto
qed

lemma digits_ok_has_digit: "digits_ok s \<Longrightarrow> list_ex is_digit s"
  by (cases s rule: digits_ok.cases) simp_all

lemma set_int_strip: "set (int_strip s) \<subseteq> set s"
proof -
  have "set (int_strip s) = set (dropWhile int_space (rev (dropWhile int_space s)))"
    by (simp add: int_strip_def)
  also have "\<dots> \<subseteq> set (rev (dropWhile int_space s))"
    by (meson set_dropWhileD subsetI)
  also have "\<dots> \<subseteq> set s"
    using set_dropWhileD[of _ int_space s] by auto
  finally show ?thesis .
qed

lemma int_of_str_needs_digit:
  assumes "\<not> list_ex is_digit s"
  shows "int_of_str s = None"
proof -
  have n: "\<not> list_ex is_digit (int_strip s)"
    using assms set_int_strip[of s] by (auto simp: list_ex_iff)
  show ?thesis
  proof (cases "int_strip s")
    case Nil
    then show ?thesis by (simp add: int_of_str_def)
  next
    case (Cons c t)
    with n have "\<not> list_ex is_digit t" and "\<not> list_ex is_digit (c # t)" by simp_all
    then have "\<not> digits_ok t" and "\<not> digits_ok (c # t)"
      using digits_ok_has_digit by blast+
    with Cons show ?thesis by (simp add: int_of_str_def parse_digits_def)
  qed
qed

lemma link_of_cases:
  "link_of r =
     (case video_url r of
        Missing \<Rightarrow> None
      | Null \<Rightarrow>
          (case start_sec r of
             Val x \<Rightarrow>
               (case py_int x of
                  None \<Rightarrow> None
                | Some n \<Rightarrow>
                    (case format_int n of
                       None \<Rightarrow> None
                     | Some t \<Rightarrow> Some (''None&t='' @ t @ ''s'')))
           | other \<Rightarrow> None)
      | Val url \<Rightarrow>
          (case start_sec r of
             Val x \<Rightarrow>
               (case py_int x of
                  None \<Rightarrow> Some url
                | Some n \<Rightarrow>
                    (case format_int n of
                       None \<Rightarrow> Some url
                     | Some t \<Rightarrow> Some (url @ ''&t='' @ t @ ''s'')))
           | other \<Rightarrow> Some url))"
  by (simp add: link_of_def link_text_def split: attr.splits option.splits)

text \<open>
  C2, as amended. The \<open>link\<close> of a shaped row is \<open>link_of\<close> of the row. \<open>int\<close> succeeds on
  an integer, on a finite float, which it truncates towards zero, and on a string that
  holds an integer literal: it reads the decimal text of an integer back as that integer,
  and what it reads from a string has at most \<open>max_str_digits\<close> digits. \<open>int\<close> fails on an
  infinity, on a NaN and on a string without a digit. When the URL is a string and
  \<open>start_sec\<close> holds a value that \<open>int\<close> turns into \<open>i\<close>, of at most \<open>max_str_digits\<close> digits
  (any \<open>i\<close> below ten to that power in absolute value), the link is the URL followed by
  \<open>&t=\<close>, the decimal text of \<open>i\<close> and \<open>s\<close>. When \<open>start_sec\<close> is missing, is \<open>NULL\<close>,
  holds a value on which \<open>int\<close> fails, or one whose integer has too many digits to be
  formatted, the link is \<open>getattr(r, "video_url", None)\<close>: the URL unchanged, and null
  when the URL is missing or \<open>NULL\<close>. The link is null whenever the URL attribute is
  missing.
\<close>

theorem link_appends_integer_of_start_second:
  "out_link (shape r) = link_of r \<and>
   py_int (SInt n) = Some n \<and>
   py_int (SFloat (Finite q)) = Some (if 0 \<le> q then \<lfloor>q\<rfloor> else \<lceil>q\<rceil>) \<and>
   py_int (SFloat PosInf) = None \<and> py_int (SFloat NegInf) = None \<and>
   py_int (SFloat NaN) = None \<and>
   py_int (SStr s) = int_of_str s \<and>
   (\<not> list_ex is_digit s \<longrightarrow> int_of_str s = None) \<and>
   (length (nat_str (nat \<bar>i\<bar>)) \<le> max_str_digits \<longrightarrow> int_of_str (int_str i) = Some i) \<and>
   (int_of_str s = Some i \<longrightarrow> length (nat_str (nat \<bar>i\<bar>)) \<le> max_str_digits) \<and>
   (\<bar>i\<bar> < 10 ^ max_str_digits \<longrightarrow> length (nat_str (nat \<bar>i\<bar>)) \<le> max_str_digits) \<and>
   (video_url r = Val url \<and> start_sec r = Val x \<and> py_int x = Some i \<and>
    length (nat_str (nat \<bar>i\<bar>)) \<le> max_str_digits \<longrightarrow>
      link_of r = Some (url @ ''&t='' @ int_str i @ ''s'')) \<and>
   (start_sec r = Missing \<or> start_sec r = Null \<or>
    (start_sec r = Val x \<and> py_int x = None) \<or>
    (start_sec r = Val x \<and> py_int x = Some i \<and>
     max_str_digits < length (nat_str (nat \<bar>i\<bar>))) \<longrightarrow>
      link_of r = getattr (video_url r)) \<and>
   (video_url r = Missing \<longrightarrow> link_of r = None) \<and>
   (getattr (video_url r) = None \<longleftrightarrow> video_url r = Missing \<or> video_url r = Null)"
proof -
  have g: "getattr (video_url r) = None \<longleftrightarrow> video_url r = Missing \<or> video_url r = Null"
    by (cases "video_url r") simp_all
  have f: "start_sec r = Missing \<or> start_sec r = Null \<or>
    (start_sec r = Val x \<and> py_int x = None) \<or>
    (start_sec r = Val x \<and> py_int x = Some i \<and>
     max_str_digits < length (nat_str (nat \<bar>i\<bar>))) \<longrightarrow>
      link_of r = getattr (video_url r)"
    by (cases "video_url r") (auto simp: link_of_cases format_int_def)
  have a: "video_url r = Val url \<and> start_sec r = Val x \<and> py_int x = Some i \<and>
    length (nat_str (nat \<bar>i\<bar>)) \<le> max_str_digits \<longrightarrow>
      link_of r = Some (url @ ''&t='' @ int_str i @ ''s'')"
    by (simp add: link_of_cases format_int_def)
  have b: "\<bar>i\<bar> < 10 ^ max_str_digits \<longrightarrow> length (nat_str (nat \<bar>i\<bar>)) \<le> max_str_digits"
  proof
    assume "\<bar>i\<bar> < 10 ^ max_str_digits"
    then have "nat \<bar>i\<bar> < 10 ^ max_str_digits"
      by (simp add: nat_less_iff)
    then show "length (nat_str (nat \<bar>i\<bar>)) \<le> max_str_digits"
      by (rule nat_str_length) (simp add: max_str_digits_def)
  qed
  have m: "video_url r = Missing \<longrightarrow> link_of r = None"
    by (simp add: link_of_cases)
  from g f a b m int_of_str_needs_digit[of s] int_of_int_str[of i] int_of_str_bound[of s i]
  show ?thesis
    by (simp add: shape_def)
qed

text \<open>
  The URL \<open>https://x/y\<close> with the seconds 42, with -42.7, with the text \<open>+4_2\<close> between
  spaces, with \<open>NULL\<close> and with a word; a \<open>NULL\<close> URL with a NaN; a row without the URL.
\<close>

theorem link_appends_integer_of_start_second_witness:
  "link_of \<lparr>video_name = Val ''v'', keyword = Val ''k'', mention_text = Val ''t'',
      video_url = Val ''https://x/y'', start_sec = Val (SInt 42),
      created_at = Val ''2024-01-01 00:00:00+00:00''\<rparr> = Some ''https://x/y&t=42s'' \<and>
   link_of \<lparr>video_name = Val ''v'', keyword = Val ''k'', mention_text = Val ''t'',
      video_url = Val ''https://x/y'', start_sec = Val (SFloat (Finite (- 427 / 10))),
      created_at = Val ''2024-01-01 00:00:00+00:00''\<rparr> = Some ''https://x/y&t=-42s'' \<and>
   link_of \<lparr>video_name = Val ''v'', keyword = Val ''k'', mention_text = Val ''t'',
      video_url = Val ''https://x/y'', start_sec = Val (SStr '' +4_2 ''),
      created_at = Val ''2024-01-01 00:00:00+00:00''\<rparr> = Some ''https://x/y&t=42s'' \<and>
   link_of \<lparr>video_name = Val ''v'', keyword = Val ''k'', mention_text = Val ''t'',
      video_url = Val ''https://x/y'', start_sec = Null,
      created_at = Val ''2024-01-01 00:00:00+00:00''\<rparr> = Some ''https://x/y'' \<and>
   link_of \<lparr>video_name = Val ''v'', keyword = Val ''k'', mention_text = Val ''t'',
      video_url = Val ''https://x/y'', start_sec = Val (SStr ''soon''),
      created_at = Val ''2024-01-01 00:00:00+00:00''\<rparr> = Some ''https://x/y'' \<and>
   link_of \<lparr>video_name = Val ''v'', keyword = Val ''k'', mention_text = Val ''t'',
      video_url = Null, start_sec = Val (SFloat NaN),
      created_at = Val ''2024-01-01 00:00:00+00:00''\<rparr> = None \<and>
   link_of \<lparr>video_name = Val ''v'', keyword = Val ''k'', mention_text = Val ''t'',
      video_url = Missing, start_sec = Val (SInt 42),
      created_at = Val ''2024-01-01 00:00:00+00:00''\<rparr> = None \<and>
   int_of_str (int_str (- 42)) = Some (- 42)"
proof -
  note t = link_appends_integer_of_start_second
  let ?r = "\<lambda>u s. \<lparr>video_name = Val ''v'', keyword = Val ''k'', mention_text = Val ''t'',
      video_url = u, start_sec = s, created_at = Val ''2024-01-01 00:00:00+00:00''\<rparr>"
  have fl: "\<lceil>- 427 / 10 :: rat\<rceil> = - 42"
    by (rule ceiling_unique) simp_all
  have d: "int_str 42 = ''42''" "int_str (- 42) = ''-42''"
    by (simp_all add: int_str_def nat_str.simps)
  have l: "length (nat_str (nat \<bar>42\<bar>)) \<le> max_str_digits"
    "length (nat_str (nat \<bar>- 42\<bar>)) \<le> max_str_digits"
    by (simp_all add: nat_str.simps max_str_digits_def)
  have p: "int_of_str '' +4_2 '' = Some 42"
    by (simp add: int_of_str_def int_strip_def int_space_def parse_digits_def is_digit_def
        digits_value_def max_str_digits_def)
  have nd: "\<not> list_ex is_digit ''soon''"
    by (simp add: is_digit_def)
  have a: "link_of (?r (Val ''https://x/y'') (Val (SInt 42))) = Some ''https://x/y&t=42s''"
    using t[where r = "?r (Val ''https://x/y'') (Val (SInt 42))" and n = 42 and i = 42
        and url = "''https://x/y''" and x = "SInt 42"] d l
    by simp
  have b: "link_of (?r (Val ''https://x/y'') (Val (SFloat (Finite (- 427 / 10))))) =
      Some ''https://x/y&t=-42s''"
    using t[where r = "?r (Val ''https://x/y'') (Val (SFloat (Finite (- 427 / 10))))"
        and q = "- 427 / 10" and i = "- 42" and url = "''https://x/y''"
        and x = "SFloat (Finite (- 427 / 10))"] d l fl
    by simp
  have c: "link_of (?r (Val ''https://x/y'') (Val (SStr '' +4_2 ''))) = Some ''https://x/y&t=42s''"
    using t[where r = "?r (Val ''https://x/y'') (Val (SStr '' +4_2 ''))" and s = "'' +4_2 ''"
        and i = 42 and url = "''https://x/y''" and x = "SStr '' +4_2 ''"] d p
    by simp
  have e: "link_of (?r (Val ''https://x/y'') Null) = Some ''https://x/y''"
    using t[where r = "?r (Val ''https://x/y'') Null"]
    by simp
  have f: "link_of (?r (Val ''https://x/y'') (Val (SStr ''soon''))) = Some ''https://x/y''"
    using t[where r = "?r (Val ''https://x/y'') (Val (SStr ''soon''))" and s = "''soon''"
        and x = "SStr ''soon''"] nd
    by simp
  have g: "link_of (?r Null (Val (SFloat NaN))) = None"
    using t[where r = "?r Null (Val (SFloat NaN))" and x = "SFloat NaN"]
    by simp
  have h: "link_of (?r Missing (Val (SInt 42))) = None"
    using t[where r = "?r Missing (Val (SInt 42))"]
    by simp
  have k: "int_of_str (int_str (- 42)) = Some (- 42)"
    using t[where i = "- 42"] l by simp
  from a b c e f g h k show ?thesis by simp
qed

text \<open>
  C2 as it is stated fails. An infinite \<open>start_sec\<close> is present and numeric, and the link
  is the URL unchanged; the text \<open>42\<close> is a string, and the link has \<open>&t=42s\<close> appended;
  with a \<open>NULL\<close> URL and the seconds 42 the link is the text \<open>None&t=42s\<close>, while the
  \<open>video_url\<close> of the same entry is null.
\<close>

theorem infinite_second_text_second_and_null_url:
  "link_of \<lparr>video_name = Val ''v'', keyword = Val ''k'', mention_text = Val ''t'',
      video_url = Val ''https://x/y'', start_sec = Val (SFloat PosInf),
      created_at = Val ''2024-01-01 00:00:00+00:00''\<rparr> = Some ''https://x/y'' \<and>
   link_of \<lparr>video_name = Val ''v'', keyword = Val ''k'', mention_text = Val ''t'',
      video_url = Val ''https://x/y'', start_sec = Val (SStr ''42''),
      created_at = Val ''2024-01-01 00:00:00+00:00''\<rparr> = Some ''https://x/y&t=42s'' \<and>
   link_of \<lparr>video_name = Val ''v'', keyword = Val ''k'', mention_text = Val ''t'',
      video_url = Null, start_sec = Val (SInt 42),
      created_at = Val ''2024-01-01 00:00:00+00:00''\<rparr> = Some ''None&t=42s'' \<and>
   out_video_url (shape \<lparr>video_name = Val ''v'', keyword = Val ''k'', mention_text = Val ''t'',
      video_url = Null, start_sec = Val (SInt 42),
      created_at = Val ''2024-01-01 00:00:00+00:00''\<rparr>) = None"
proof -
  have d: "format_int 42 = Some ''42''"
    by (simp add: format_int_def int_str_def nat_str.simps max_str_digits_def)
  have p: "int_of_str ''42'' = Some 42"
    by (simp add: int_of_str_def int_strip_def int_space_def parse_digits_def is_digit_def
        digits_value_def max_str_digits_def)
  show ?thesis
    by (simp add: link_of_def link_text_def shape_def d p)
qed

section \<open>The query of the mentions handler\<close>

text \<open>
  C7. The SQL text of the query is the same for any two values of \<open>hours\<close>: the value is
  not part of the text, and reaches the engine only as the query parameter \<open>hours\<close> of
  type \<open>INT64\<close>. The text ends with the condition that \<open>created_at\<close>, cast to a
  timestamp, is strictly greater than the current timestamp minus \<open>@hours\<close> hours, and
  with the ordering by \<open>created_at\<close> descending. With a client that does not fail, the
  handler runs this query and shapes the rows it yields, in their order.
\<close>

theorem query_text_is_the_same_for_all_hours:
  "sql (build_query cfg hours1) = sql (build_query cfg hours2) \<and>
   query_parameters (build_query cfg hours) = [(''hours'', ''INT64'', hours)] \<and>
   (\<exists>select_from.
      sql (build_query cfg hours) =
        select_from @ nl_tab @ where_clause @ nl_tab @ order_clause @ nl_tab) \<and>
   where_clause =
     ''WHERE CAST(created_at AS TIMESTAMP) > TIMESTAMP_SUB(CURRENT_TIMESTAMP(), INTERVAL @hours HOUR)'' \<and>
   order_clause = ''ORDER BY created_at DESC'' \<and>
   get_recent_mentions cfg \<lparr>bq_client_error = None, run_query = run\<rparr> hours =
     (case run (build_query cfg hours) of
        Inl e \<Rightarrow> Inl e
      | Inr rows \<Rightarrow> Inr \<lparr>count = length rows, results = map shape rows\<rparr>)"
proof -
  have t: "\<exists>select_from.
      sql (build_query cfg hours) =
        select_from @ nl_tab @ where_clause @ nl_tab @ order_clause @ nl_tab"
    unfolding build_query_def sql_text_def
    by (metis append.assoc query.select_convs(1))
  have w: "where_clause =
     ''WHERE CAST(created_at AS TIMESTAMP) > TIMESTAMP_SUB(CURRENT_TIMESTAMP(), INTERVAL @hours HOUR)''"
    by (simp add: where_clause_def)
  have g: "get_recent_mentions cfg \<lparr>bq_client_error = None, run_query = run\<rparr> hours =
     (case run (build_query cfg hours) of
        Inl e \<Rightarrow> Inl e
      | Inr rows \<Rightarrow> Inr \<lparr>count = length rows, results = map shape rows\<rparr>)"
    by (simp add: get_recent_mentions_def Let_def split: sum.splits)
  from t w g show ?thesis
    by (simp add: build_query_def order_clause_def)
qed

end
